theory Spec2Isabelle
  imports Complex_Main "HOL-Library.Multiset"
begin

section \<open>Strings and numbers of the JavaScript source\<close>

text \<open>
  Strings are lists of characters read as ASCII code units. \<open>toUpperCase\<close> and
  \<open>toLowerCase\<close> map the 26 ASCII letters and leave every other character alone; the
  white space of \<open>trim\<close> and of the regular expression class \<open>\s\<close> is tab, line feed,
  vertical tab, form feed, carriage return, space and the no-break space; the line
  terminators that \<open>.\<close> refuses are line feed and carriage return.
  Numbers are exact: task numbers and colour channels are natural numbers or integers,
  pixel values and tolerances are reals, and \<open>NaN\<close> is a value of its own. JavaScript
  agrees with exact integers below \<open>2 ^ 53\<close>.
\<close>

definition isDigit :: "char \<Rightarrow> bool" where
  "isDigit c = (c \<in> set ''0123456789'')"

definition digitVal :: "char \<Rightarrow> nat" where
  "digitVal c = of_char c - 48"


text \<open>\<open>parseInt(s, 10)\<close> on a string of decimal digits.\<close>

definition parseDigits :: "string \<Rightarrow> nat" where
  "parseDigits s = foldl (\<lambda>n c. 10 * n + digitVal c) 0 s"



definition padStart :: "nat \<Rightarrow> char \<Rightarrow> string \<Rightarrow> string" where
  "padStart k c s = replicate (k - length s) c @ s"

definition isSpace :: "char \<Rightarrow> bool" where
  "isSpace c = (c \<in> set [CHR 0x09, CHR 0x0A, CHR 0x0B, CHR 0x0C, CHR 0x0D, CHR 0x20, CHR 0xA0])"

definition isLineTerminator :: "char \<Rightarrow> bool" where
  "isLineTerminator c = (c \<in> set [CHR 0x0A, CHR 0x0D])"

definition trim :: "string \<Rightarrow> string" where
  "trim s = rev (dropWhile isSpace (rev (dropWhile isSpace s)))"

definition upperChar :: "char \<Rightarrow> char" where
  "upperChar c =
     (case map_of (zip ''abcdefghijklmnopqrstuvwxyz'' ''ABCDEFGHIJKLMNOPQRSTUVWXYZ'') c of
        Some u \<Rightarrow> u | None \<Rightarrow> c)"

definition lowerChar :: "char \<Rightarrow> char" where
  "lowerChar c =
     (case map_of (zip ''ABCDEFGHIJKLMNOPQRSTUVWXYZ'' ''abcdefghijklmnopqrstuvwxyz'') c of
        Some l \<Rightarrow> l | None \<Rightarrow> c)"

definition toUpperCase :: "string \<Rightarrow> string" where
  "toUpperCase s = map upperChar s"

definition toLowerCase :: "string \<Rightarrow> string" where
  "toLowerCase s = map lowerChar s"

definition startsWith :: "string \<Rightarrow> string \<Rightarrow> bool" where
  "startsWith s p = (take (length p) s = p)"

definition endsWith :: "string \<Rightarrow> string \<Rightarrow> bool" where
  "endsWith s p = (length p \<le> length s \<and> drop (length s - length p) s = p)"

text \<open>\<open>s.includes(p)\<close>: \<open>p\<close> occurs in \<open>s\<close> as a substring.\<close>

fun includesStr :: "string \<Rightarrow> string \<Rightarrow> bool" where
  "includesStr [] p = (p = [])"
| "includesStr (c # s) p = (startsWith (c # s) p \<or> includesStr s p)"

section \<open>Task store (src/core/queue.ts)\<close>

text \<open>
  The queue file holds the active tasks, the completed tasks and the current pointer.
  Of a task's timestamps only \<open>createdAt\<close> is kept, as the epoch milliseconds that
  \<open>new Date(createdAt).getTime()\<close> reads from it; \<open>updatedAt\<close> and the queue's
  \<open>lastUpdated\<close> are written by the source and read by none of its decisions. The optional
  platform descriptors and acceptance criteria of a task are left out likewise.
\<close>

datatype TaskStatus = Pending | InProgress | AwaitingReview | Completed | Rejected

datatype TaskPriority = High | Medium | Low

record TaskDraft =
  taskType :: string
  priority :: TaskPriority
  title :: string
  description :: string

record Task = TaskDraft +
  task_id :: string
  status :: TaskStatus
  createdAt :: int
  rejectionReason :: "string option"

record TaskQueue =
  tasks :: "Task list"
  completed :: "Task list"
  current :: "string option"

datatype jsError =
    TaskNotFound string
  | ReadFailed
  | ExtractionFailed






text \<open>\<open>Array.prototype.findIndex\<close>: the first index whose element satisfies the test.\<close>

fun findIndex :: "('a \<Rightarrow> bool) \<Rightarrow> 'a list \<Rightarrow> nat option" where
  "findIndex P [] = None"
| "findIndex P (x # xs) = (if P x then Some 0 else map_option Suc (findIndex P xs))"

text \<open>The fields an update may carry (\<open>Partial<Omit<Task, 'id' | 'createdAt'>>\<close>), as far as
  the callers use them: a present key overwrites the task's field.\<close>

record TaskUpdates =
  newStatus :: "TaskStatus option"
  newRejectionReason :: "string option option"

definition applyUpdates :: "TaskUpdates \<Rightarrow> Task \<Rightarrow> Task" where
  "applyUpdates updates task =
     (let t1 = (case newStatus updates of None \<Rightarrow> task | Some s \<Rightarrow> task\<lparr> status := s \<rparr>)
      in (case newRejectionReason updates of None \<Rightarrow> t1 | Some r \<Rightarrow> t1\<lparr> rejectionReason := r \<rparr>))"

definition updateTask :: "string \<Rightarrow> TaskUpdates \<Rightarrow> TaskQueue \<Rightarrow> jsError + (Task \<times> TaskQueue)" where
  "updateTask taskId updates queue =
     (case findIndex (\<lambda>t. task_id t = taskId) (tasks queue) of
        None \<Rightarrow> Inl (TaskNotFound taskId)
      | Some taskIndex \<Rightarrow>
          (let updated = applyUpdates updates (tasks queue ! taskIndex)
           in Inr (updated, queue\<lparr> tasks := (tasks queue)[taskIndex := updated] \<rparr>)))"

definition updateTaskStatus :: "string \<Rightarrow> TaskStatus \<Rightarrow> TaskQueue \<Rightarrow> jsError + (Task \<times> TaskQueue)" where
  "updateTaskStatus taskId s queue =
     updateTask taskId \<lparr> newStatus = Some s, newRejectionReason = None \<rparr> queue"

definition setCurrentTask :: "string option \<Rightarrow> TaskQueue \<Rightarrow> TaskQueue" where
  "setCurrentTask taskId queue = queue\<lparr> current := taskId \<rparr>"

definition completeTask :: "string \<Rightarrow> TaskQueue \<Rightarrow> jsError + TaskQueue" where
  "completeTask taskId queue =
     (case findIndex (\<lambda>t. task_id t = taskId) (tasks queue) of
        None \<Rightarrow> Inl (TaskNotFound taskId)
      | Some taskIndex \<Rightarrow>
          (let task = (tasks queue ! taskIndex)\<lparr> status := Completed \<rparr>;
               q1 = queue\<lparr> tasks := take taskIndex (tasks queue) @ drop (Suc taskIndex) (tasks queue),
                            completed := completed queue @ [task] \<rparr>
           in Inr (if current q1 = Some taskId then q1\<lparr> current := None \<rparr> else q1)))"

definition rejectTask :: "string \<Rightarrow> string \<Rightarrow> TaskQueue \<Rightarrow> jsError + (Task \<times> TaskQueue)" where
  "rejectTask taskId reason queue =
     updateTask taskId \<lparr> newStatus = Some Rejected, newRejectionReason = Some (Some reason) \<rparr> queue"

definition resetTask :: "string \<Rightarrow> TaskQueue \<Rightarrow> jsError + (Task \<times> TaskQueue)" where
  "resetTask taskId queue =
     updateTask taskId \<lparr> newStatus = Some Pending, newRejectionReason = Some None \<rparr> queue"

definition getPendingTasks :: "TaskQueue \<Rightarrow> Task list" where
  "getPendingTasks queue = filter (\<lambda>t. status t = Pending) (tasks queue)"

definition getInProgressTasks :: "TaskQueue \<Rightarrow> Task list" where
  "getInProgressTasks queue = filter (\<lambda>t. status t = InProgress) (tasks queue)"

text \<open>
  \<open>Array.prototype.sort\<close> with a comparison function is stable and puts \<open>a\<close> before
  \<open>b\<close> unless the function is positive on them: insertion from the right, each element
  going in front of the first one it does not exceed.
\<close>

fun insertBy :: "('a \<Rightarrow> 'a \<Rightarrow> int) \<Rightarrow> 'a \<Rightarrow> 'a list \<Rightarrow> 'a list" where
  "insertBy cmp x [] = [x]"
| "insertBy cmp x (y # ys) = (if cmp x y \<le> 0 then x # y # ys else y # insertBy cmp x ys)"

definition sortBy :: "('a \<Rightarrow> 'a \<Rightarrow> int) \<Rightarrow> 'a list \<Rightarrow> 'a list" where
  "sortBy cmp xs = foldr (insertBy cmp) xs []"

fun priorityOrder :: "TaskPriority \<Rightarrow> int" where
  "priorityOrder High = 3"
| "priorityOrder Medium = 2"
| "priorityOrder Low = 1"

definition comparePending :: "Task \<Rightarrow> Task \<Rightarrow> int" where
  "comparePending a b =
     (let priorityDiff = priorityOrder (priority b) - priorityOrder (priority a)
      in if priorityDiff \<noteq> 0 then priorityDiff else createdAt a - createdAt b)"

definition getNextPendingTask :: "TaskQueue \<Rightarrow> Task option" where
  "getNextPendingTask queue =
     (let pending = getPendingTasks queue
      in if length pending = 0 then None else Some (hd (sortBy comparePending pending)))"






text \<open>A queue, a draft and a run of operations to evaluate the store on.\<close>

definition exampleTask :: "string \<Rightarrow> TaskPriority \<Rightarrow> TaskStatus \<Rightarrow> int \<Rightarrow> Task" where
  "exampleTask i p s c =
     \<lparr> taskType = ''feature_implementation'', priority = p, title = ''t'', description = ''d'',
       task_id = i, status = s, createdAt = c, rejectionReason = None \<rparr>"

definition exampleQueue :: TaskQueue where
  "exampleQueue =
     \<lparr> tasks = [exampleTask ''task-007'' Low Pending 10, exampleTask ''task-009'' High InProgress 20,
                exampleTask ''task-010'' High Pending 40, exampleTask ''task-011'' High Pending 30],
       completed = [exampleTask ''task-012'' Medium Completed 5],
       current = None \<rparr>"



section \<open>Colour and spacing values (src/utils/css-extractor.ts)\<close>

definition isHexDigit :: "char \<Rightarrow> bool" where
  "isHexDigit c = (c \<in> set ''0123456789abcdefABCDEF'')"

definition hexDigitVal :: "char \<Rightarrow> nat" where
  "hexDigitVal c =
     (case findIndex (\<lambda>d. d = lowerChar c) ''0123456789abcdef'' of Some v \<Rightarrow> v | None \<Rightarrow> 0)"

definition hexDigitChar :: "nat \<Rightarrow> char" where
  "hexDigitChar d = ''0123456789abcdef'' ! d"

text \<open>\<open>n.toString(16)\<close> for a natural number.\<close>

fun hexString :: "nat \<Rightarrow> string" where
  "hexString n =
     (if n < 16 then [hexDigitChar n] else hexString (n div 16) @ [hexDigitChar (n mod 16)])"

declare hexString.simps [simp del]

text \<open>
  The pieces of the pattern
  \<open>/rgba?\s*\(\s*(\d+)\s*,\s*(\d+)\s*,\s*(\d+)(?:\s*,\s*[\d.]+)?\s*\)/\<close>.
  Every repetition is followed by a character outside its class, so the greedy choice is
  the only one that can succeed and the match at a position is computed left to right.
\<close>

definition skipSpaces :: "string \<Rightarrow> string" where
  "skipSpaces s = dropWhile isSpace s"

definition expectChar :: "char \<Rightarrow> string \<Rightarrow> string option" where
  "expectChar c s = (case s of [] \<Rightarrow> None | x # rest \<Rightarrow> if x = c then Some rest else None)"

text \<open>\<open>\s*(\d+)\s*\<close>: the digits captured and the text after them.\<close>

definition channel :: "string \<Rightarrow> (string \<times> string) option" where
  "channel s =
     (let s1 = skipSpaces s; digits = takeWhile isDigit s1
      in if digits = [] then None else Some (digits, skipSpaces (dropWhile isDigit s1)))"

definition isDigitOrDot :: "char \<Rightarrow> bool" where
  "isDigitOrDot c = (isDigit c \<or> c = CHR ''.'')"

text \<open>\<open>(?:\s*,\s*[\d.]+)?\s*\)\<close> after the third channel and the white space behind it.\<close>

definition alphaAndClose :: "string \<Rightarrow> bool" where
  "alphaAndClose s =
     (case s of
        [] \<Rightarrow> False
      | c # rest \<Rightarrow>
          if c = CHR '','' then
            (let s1 = skipSpaces rest; alpha = takeWhile isDigitOrDot s1
             in alpha \<noteq> [] \<and> expectChar (CHR '')'') (skipSpaces (dropWhile isDigitOrDot s1)) \<noteq> None)
          else c = CHR '')'')"

definition matchRgbAt :: "string \<Rightarrow> (string \<times> string \<times> string) option" where
  "matchRgbAt s =
     (if startsWith s ''rgb'' then
        (let s1 = drop 3 s;
             s2 = (if startsWith s1 ''a'' then drop 1 s1 else s1)
         in case expectChar (CHR ''('') (skipSpaces s2) of
              None \<Rightarrow> None
            | Some s3 \<Rightarrow>
               (case channel s3 of
                  None \<Rightarrow> None
                | Some (r, s4) \<Rightarrow>
                   (case expectChar (CHR '','') s4 of
                      None \<Rightarrow> None
                    | Some s5 \<Rightarrow>
                       (case channel s5 of
                          None \<Rightarrow> None
                        | Some (g, s6) \<Rightarrow>
                           (case expectChar (CHR '','') s6 of
                              None \<Rightarrow> None
                            | Some s7 \<Rightarrow>
                               (case channel s7 of
                                  None \<Rightarrow> None
                                | Some (b, s8) \<Rightarrow>
                                    if alphaAndClose s8 then Some (r, g, b) else None))))))
      else None)"

text \<open>\<open>String.prototype.match\<close> without the global flag: the leftmost position that matches.\<close>

fun rgbMatch :: "string \<Rightarrow> (string \<times> string \<times> string) option" where
  "rgbMatch [] = None"
| "rgbMatch (c # s) =
     (case matchRgbAt (c # s) of Some m \<Rightarrow> Some m | None \<Rightarrow> rgbMatch s)"

definition hexChannel :: "string \<Rightarrow> string" where
  "hexChannel digits = padStart 2 (CHR ''0'') (hexString (parseDigits digits))"

definition normalizeColorValue :: "string \<Rightarrow> string" where
  "normalizeColorValue v =
     (let trimmed = trim v
      in if startsWith trimmed ''#'' then
           (if length trimmed = 4 then
              (let r = trimmed ! 1; g = trimmed ! 2; b = trimmed ! 3
               in toUpperCase [CHR ''#'', r, r, g, g, b, b])
            else toUpperCase trimmed)
         else
           (case rgbMatch trimmed of
              Some (r, g, b) \<Rightarrow> toUpperCase (''#'' @ hexChannel r @ hexChannel g @ hexChannel b)
            | None \<Rightarrow> trimmed))"

text \<open>A JavaScript number that may be \<open>NaN\<close>.\<close>

datatype jsnum = NaN | Num real

text \<open>\<open>parseFloat\<close> on a string of digits and dots: the longest prefix that is a decimal
  literal, \<open>NaN\<close> when that prefix has no digit.\<close>

definition parseFloat :: "string \<Rightarrow> jsnum" where
  "parseFloat s =
     (let intPart = takeWhile isDigit s;
          rest = dropWhile isDigit s;
          fracPart = (if startsWith rest ''.'' then takeWhile isDigit (drop 1 rest) else [])
      in if intPart = [] \<and> fracPart = [] then NaN
         else Num (real (parseDigits intPart) + real (parseDigits fracPart) / 10 ^ length fracPart))"

definition scaleBy :: "jsnum \<Rightarrow> real \<Rightarrow> jsnum" where
  "scaleBy x k = (case x of NaN \<Rightarrow> NaN | Num a \<Rightarrow> Num (a * k))"

text \<open>\<open>/^([\d.]+)unit$/\<close>: the captured number text.\<close>

definition matchUnit :: "string \<Rightarrow> string \<Rightarrow> string option" where
  "matchUnit unit s =
     (let n = take (length s - length unit) s
      in if endsWith s unit \<and> n \<noteq> [] \<and> list_all isDigitOrDot n then Some n else None)"

text \<open>\<open>parseSpacingValue\<close>: \<open>None\<close> is the source's \<open>null\<close>.\<close>

definition parseSpacingValue :: "string \<Rightarrow> jsnum option" where
  "parseSpacingValue v =
     (let trimmed = toLowerCase (trim v)
      in case matchUnit ''px'' trimmed of
           Some n \<Rightarrow> Some (parseFloat n)
         | None \<Rightarrow>
            (case matchUnit ''rem'' trimmed of
               Some n \<Rightarrow> Some (scaleBy (parseFloat n) 16)
             | None \<Rightarrow>
                (case matchUnit ''em'' trimmed of
                   Some n \<Rightarrow> Some (scaleBy (parseFloat n) 16)
                 | None \<Rightarrow>
                    (case matchUnit [] trimmed of
                       Some n \<Rightarrow> Some (parseFloat trimmed)
                     | None \<Rightarrow> None))))"

section \<open>Token comparison (src/utils/design-comparator.ts)\<close>

text \<open>
  A \<open>Record<string, string>\<close> is the list of its entries in the order \<open>Object.entries\<close>
  yields them; an object has each key once. A lookup \<open>tokens[name]\<close> is \<open>map_of\<close> (own
  properties only). The \<open>difference\<close> text of a discrepancy is kept as a value that holds
  the number the text prints.
\<close>

type_synonym TokenMap = "(string \<times> string) list"

record FontToken =
  family :: string
  size_font :: string
  weight :: string
  lineHeight :: "string option"
  letterSpacing :: "string option"

record DesignTokens =
  colors :: TokenMap
  fonts :: "(string \<times> FontToken) list"
  spacing :: TokenMap
  borderRadius :: "TokenMap option"
  shadows :: "TokenMap option"

type_synonym CSSTokens = DesignTokens

datatype DiscrepancyType = ColorType | FontType | SpacingType | BorderRadiusType | ShadowType | OtherType

datatype Severity = Error | Warning | Info

datatype Difference =
    TokenNotFound
  | ColorDifference real
  | ValuesDiffer
  | SpacingDifference jsnum

record DiscrepancyItem =
  dtype :: DiscrepancyType
  tokenName :: string
  expectedValue :: string
  actualValue :: string
  difference :: Difference
  severity :: Severity

record VerificationOutcome =
  verified :: bool
  matchPercentage :: int
  discrepancies :: "DiscrepancyItem list"

record ComparisonResult = VerificationOutcome +
  totalChecked :: nat
  matchingCount :: nat
  mismatchedCount :: nat
  missingInCSSCount :: nat
  extraInCSSCount :: nat

record ComparisonOptions =
  colorTolerance :: "real option"
  spacingTolerance :: "real option"
  checkExtraTokens :: "bool option"
  minMatchPercentage :: "real option"

definition DEFAULT_OPTIONS :: ComparisonOptions where
  "DEFAULT_OPTIONS =
     \<lparr> colorTolerance = Some 5, spacingTolerance = Some 2, checkExtraTokens = Some False,
       minMatchPercentage = Some 90 \<rparr>"

text \<open>The spread \<open>{ ...a, ...b }\<close>: a key present in \<open>b\<close> wins.\<close>

definition orElse :: "'a option \<Rightarrow> 'a option \<Rightarrow> 'a option" where
  "orElse b a = (case b of Some x \<Rightarrow> Some x | None \<Rightarrow> a)"

definition mergeOptions :: "ComparisonOptions \<Rightarrow> ComparisonOptions \<Rightarrow> ComparisonOptions" where
  "mergeOptions a b =
     \<lparr> colorTolerance = orElse (colorTolerance b) (colorTolerance a),
       spacingTolerance = orElse (spacingTolerance b) (spacingTolerance a),
       checkExtraTokens = orElse (checkExtraTokens b) (checkExtraTokens a),
       minMatchPercentage = orElse (minMatchPercentage b) (minMatchPercentage a) \<rparr>"

record TokenComparisonResult =
  total_count :: nat
  matching :: nat
  mismatched :: nat
  missing :: nat
  found :: "DiscrepancyItem list"

definition stripSeparators :: "string \<Rightarrow> string" where
  "stripSeparators s = filter (\<lambda>c. c \<noteq> CHR ''-'' \<and> c \<noteq> CHR ''_'') s"

text \<open>\<open>name.split('-').pop()\<close>: the text after the last hyphen.\<close>

definition lastSegment :: "string \<Rightarrow> string" where
  "lastSegment name = rev (takeWhile (\<lambda>c. c \<noteq> CHR ''-'') (rev name))"

definition findMatchingToken :: "string \<Rightarrow> TokenMap \<Rightarrow> string option" where
  "findMatchingToken name tokens =
     (case map_of tokens name of
        Some v \<Rightarrow> Some v
      | None \<Rightarrow>
         (let normalized = stripSeparators (toLowerCase name)
          in case find (\<lambda>(key, v). stripSeparators (toLowerCase key) = normalized) tokens of
               Some (key, v) \<Rightarrow> Some v
             | None \<Rightarrow>
                (let baseName = toLowerCase (lastSegment name)
                 in if baseName \<noteq> [] then
                      (case find (\<lambda>(key, v). endsWith (toLowerCase key) baseName) tokens of
                         Some (key, v) \<Rightarrow> Some v
                       | None \<Rightarrow> None)
                    else None)))"

text \<open>\<open>parseInt(s, 16)\<close>: leading white space, a sign and a \<open>0x\<close> prefix are skipped, the
  longest run of hexadecimal digits is read, and \<open>None\<close> is \<open>NaN\<close>.\<close>

definition parseIntHex :: "string \<Rightarrow> int option" where
  "parseIntHex s =
     (let s1 = dropWhile isSpace s;
          negative = startsWith s1 ''-'';
          s2 = (if startsWith s1 ''-'' \<or> startsWith s1 ''+'' then drop 1 s1 else s1);
          s3 = (if startsWith s2 ''0x'' \<or> startsWith s2 ''0X'' then drop 2 s2 else s2);
          digits = takeWhile isHexDigit s3;
          n = int (foldl (\<lambda>n c. 16 * n + hexDigitVal c) 0 digits)
      in if digits = [] then None else Some (if negative then - n else n))"

definition hexToRgb :: "string \<Rightarrow> (int \<times> int \<times> int) option" where
  "hexToRgb hex =
     (let cleaned = remove1 (CHR ''#'') hex
      in if length cleaned \<noteq> 6 then None
         else (case (parseIntHex (take 2 cleaned), parseIntHex (take 2 (drop 2 cleaned)),
                     parseIntHex (take 2 (drop 4 cleaned))) of
                 (Some r, Some g, Some b) \<Rightarrow> Some (r, g, b)
               | _ \<Rightarrow> None))"

definition calculateColorDifference :: "string \<Rightarrow> string \<Rightarrow> real" where
  "calculateColorDifference hex1 hex2 =
     (case (hexToRgb hex1, hexToRgb hex2) of
        (Some (r1, g1, b1), Some (r2, g2, b2)) \<Rightarrow>
          (let rDiff = \<bar>r1 - r2\<bar>; gDiff = \<bar>g1 - g2\<bar>; bDiff = \<bar>b1 - b2\<bar>;
               maxDiff = sqrt (255 * 255 * 3);
               actualDiff = sqrt (real_of_int (rDiff * rDiff + gDiff * gDiff + bDiff * bDiff))
           in (actualDiff / maxDiff) * 100)
      | _ \<Rightarrow> 100)"

definition notFound :: "DiscrepancyType \<Rightarrow> string \<Rightarrow> string \<Rightarrow> DiscrepancyItem" where
  "notFound ty name designValue =
     \<lparr> dtype = ty, tokenName = name, expectedValue = designValue, actualValue = ''NOT_FOUND'',
       difference = TokenNotFound, severity = Warning \<rparr>"

text \<open>One turn of the loop of \<open>compareColors\<close>. \<open>!cssValue\<close> holds for \<open>undefined\<close> and for
  the empty string.\<close>

definition compareColorStep ::
  "TokenMap \<Rightarrow> real \<Rightarrow> TokenComparisonResult \<Rightarrow> string \<times> string \<Rightarrow> TokenComparisonResult" where
  "compareColorStep cssColors tolerance acc entry =
     (let name = fst entry; designValue = snd entry;
          cssValue = findMatchingToken name cssColors
      in case cssValue of
           None \<Rightarrow> acc\<lparr> missing := missing acc + 1,
                         found := found acc @ [notFound ColorType name designValue] \<rparr>
         | Some css \<Rightarrow>
            if css = [] then
              acc\<lparr> missing := missing acc + 1,
                   found := found acc @ [notFound ColorType name designValue] \<rparr>
            else
              (let normalizedDesign = normalizeColorValue designValue;
                   normalizedCSS = normalizeColorValue css
               in if normalizedDesign = normalizedCSS then acc\<lparr> matching := matching acc + 1 \<rparr>
                  else
                    (let colorDiff = calculateColorDifference normalizedDesign normalizedCSS
                     in if colorDiff \<le> tolerance then acc\<lparr> matching := matching acc + 1 \<rparr>
                        else acc\<lparr> mismatched := mismatched acc + 1,
                                  found := found acc @
                                    [\<lparr> dtype = ColorType, tokenName = name,
                                       expectedValue = designValue, actualValue = css,
                                       difference = ColorDifference colorDiff,
                                       severity = (if colorDiff > 20 then Error else Warning) \<rparr>] \<rparr>)))"

definition compareColors :: "TokenMap \<Rightarrow> TokenMap \<Rightarrow> real \<Rightarrow> TokenComparisonResult" where
  "compareColors designColors cssColors tolerance =
     foldl (compareColorStep cssColors tolerance)
       \<lparr> total_count = length designColors, matching = 0, mismatched = 0, missing = 0, found = [] \<rparr>
       designColors"

definition absDiff :: "jsnum \<Rightarrow> jsnum \<Rightarrow> jsnum" where
  "absDiff x y = (case (x, y) of (Num a, Num b) \<Rightarrow> Num \<bar>a - b\<bar> | _ \<Rightarrow> NaN)"

text \<open>Comparisons with \<open>NaN\<close> are false.\<close>

definition numAtMost :: "jsnum \<Rightarrow> real \<Rightarrow> bool" where
  "numAtMost x k = (case x of NaN \<Rightarrow> False | Num a \<Rightarrow> a \<le> k)"

definition numAbove :: "jsnum \<Rightarrow> real \<Rightarrow> bool" where
  "numAbove x k = (case x of NaN \<Rightarrow> False | Num a \<Rightarrow> a > k)"

definition compareSpacingStep ::
  "TokenMap \<Rightarrow> real \<Rightarrow> DiscrepancyType \<Rightarrow> TokenComparisonResult \<Rightarrow> string \<times> string
     \<Rightarrow> TokenComparisonResult" where
  "compareSpacingStep cssSpacing tolerance ty acc entry =
     (let name = fst entry; designValue = snd entry;
          cssValue = findMatchingToken name cssSpacing
      in case cssValue of
           None \<Rightarrow> acc\<lparr> missing := missing acc + 1,
                         found := found acc @ [notFound ty name designValue] \<rparr>
         | Some css \<Rightarrow>
            if css = [] then
              acc\<lparr> missing := missing acc + 1,
                   found := found acc @ [notFound ty name designValue] \<rparr>
            else
              (case (parseSpacingValue designValue, parseSpacingValue css) of
                 (Some designPx, Some cssPx) \<Rightarrow>
                   (let diff = absDiff designPx cssPx
                    in if numAtMost diff tolerance then acc\<lparr> matching := matching acc + 1 \<rparr>
                       else acc\<lparr> mismatched := mismatched acc + 1,
                                 found := found acc @
                                   [\<lparr> dtype = ty, tokenName = name, expectedValue = designValue,
                                      actualValue = css, difference = SpacingDifference diff,
                                      severity = (if numAbove diff 8 then Error else Warning) \<rparr>] \<rparr>)
               | _ \<Rightarrow>
                   if designValue = css then acc\<lparr> matching := matching acc + 1 \<rparr>
                   else acc\<lparr> mismatched := mismatched acc + 1,
                             found := found acc @
                               [\<lparr> dtype = ty, tokenName = name, expectedValue = designValue,
                                  actualValue = css, difference = ValuesDiffer,
                                  severity = Warning \<rparr>] \<rparr>))"

definition compareSpacing ::
  "TokenMap \<Rightarrow> TokenMap \<Rightarrow> real \<Rightarrow> DiscrepancyType \<Rightarrow> TokenComparisonResult" where
  "compareSpacing designSpacing cssSpacing tolerance ty =
     foldl (compareSpacingStep cssSpacing tolerance ty)
       \<lparr> total_count = length designSpacing, matching = 0, mismatched = 0, missing = 0, found = [] \<rparr>
       designSpacing"

text \<open>\<open>Math.round\<close>: the nearest integer, a half going up.\<close>

definition mathRound :: "real \<Rightarrow> int" where
  "mathRound x = \<lfloor>x + 1 / 2\<rfloor>"

text \<open>The value of an option that the spread has filled from the defaults (\<open>opts.x!\<close>).\<close>

definition optionValue :: "real option \<Rightarrow> real \<Rightarrow> real" where
  "optionValue x d = (case x of Some v \<Rightarrow> v | None \<Rightarrow> d)"

definition compareDesignTokens ::
  "DesignTokens \<Rightarrow> CSSTokens \<Rightarrow> ComparisonOptions \<Rightarrow> ComparisonResult" where
  "compareDesignTokens designTokens cssTokens options =
     (let opts = mergeOptions DEFAULT_OPTIONS options;
          colorResult = compareColors (colors designTokens) (colors cssTokens)
                          (optionValue (colorTolerance opts) 5);
          spacingResult = compareSpacing (spacing designTokens) (spacing cssTokens)
                            (optionValue (spacingTolerance opts) 2) SpacingType;
          radiusResult =
            (case borderRadius designTokens of
               None \<Rightarrow> \<lparr> total_count = 0, matching = 0, mismatched = 0, missing = 0, found = [] \<rparr>
             | Some designRadius \<Rightarrow>
                 compareSpacing designRadius
                   (case borderRadius cssTokens of None \<Rightarrow> [] | Some cssRadius \<Rightarrow> cssRadius)
                   (optionValue (spacingTolerance opts) 2) BorderRadiusType);
          allTotal = total_count colorResult + total_count spacingResult + total_count radiusResult;
          allMatching = matching colorResult + matching spacingResult + matching radiusResult;
          percentage =
            (if allTotal > 0 then mathRound ((real allMatching / real allTotal) * 100) else 100);
          minimum = optionValue (minMatchPercentage opts) 90
      in \<lparr> verified = (real_of_int percentage \<ge> (if minimum = 0 then 90 else minimum)),
           matchPercentage = percentage,
           discrepancies = found colorResult @ found spacingResult @ found radiusResult,
           totalChecked = allTotal,
           matchingCount = allMatching,
           mismatchedCount = mismatched colorResult + mismatched spacingResult + mismatched radiusResult,
           missingInCSSCount = missing colorResult + missing spacingResult + missing radiusResult,
           extraInCSSCount = 0 \<rparr>)"

section \<open>Notions for stating the properties of the comparison\<close>

text \<open>The counts and findings of two partial comparisons, added up.\<close>

definition zeroResult :: TokenComparisonResult where
  "zeroResult = \<lparr> total_count = 0, matching = 0, mismatched = 0, missing = 0, found = [] \<rparr>"

definition plusResult :: "TokenComparisonResult \<Rightarrow> TokenComparisonResult \<Rightarrow> TokenComparisonResult" where
  "plusResult a b =
     \<lparr> total_count = total_count a + total_count b, matching = matching a + matching b,
       mismatched = mismatched a + mismatched b, missing = missing a + missing b,
       found = found a @ found b \<rparr>"

text \<open>
  The values \<open>findMatchingToken\<close> chooses from: the value under the exact name if there is
  one; otherwise the values of all keys that agree with the name up to case and separators,
  if there are any; otherwise the values of all keys that end with the name's last segment.
  \<open>findMatchingToken\<close> returns the first of them.
\<close>

definition matchCandidates :: "string \<Rightarrow> TokenMap \<Rightarrow> string list" where
  "matchCandidates name tokens =
     (case map_of tokens name of
        Some v \<Rightarrow> [v]
      | None \<Rightarrow>
         (let normalized = stripSeparators (toLowerCase name);
              byName = filter (\<lambda>(key, v). stripSeparators (toLowerCase key) = normalized) tokens;
              baseName = toLowerCase (lastSegment name)
          in if byName \<noteq> [] then map snd byName
             else if baseName \<noteq> [] then
               map snd (filter (\<lambda>(key, v). endsWith (toLowerCase key) baseName) tokens)
             else []))"

text \<open>A name is matched unambiguously when all its candidates carry one value.\<close>

definition unambiguous :: "string \<Rightarrow> TokenMap \<Rightarrow> bool" where
  "unambiguous name tokens =
     (case matchCandidates name tokens of [] \<Rightarrow> True | v # vs \<Rightarrow> list_all (\<lambda>w. w = v) vs)"

definition unambiguousFor :: "TokenMap \<Rightarrow> TokenMap \<Rightarrow> bool" where
  "unambiguousFor expected extracted = list_all (\<lambda>entry. unambiguous (fst entry) extracted) expected"

definition extractedRadius :: "CSSTokens \<Rightarrow> TokenMap" where
  "extractedRadius cssTokens = (case borderRadius cssTokens of None \<Rightarrow> [] | Some r \<Rightarrow> r)"

definition unambiguousTokens :: "DesignTokens \<Rightarrow> CSSTokens \<Rightarrow> bool" where
  "unambiguousTokens designTokens cssTokens =
     (unambiguousFor (colors designTokens) (colors cssTokens) \<and>
      unambiguousFor (spacing designTokens) (spacing cssTokens) \<and>
      (case borderRadius designTokens of
         None \<Rightarrow> True
       | Some r \<Rightarrow> unambiguousFor r (extractedRadius cssTokens)))"

text \<open>Two maps hold the same key-value pairs, in whatever order.\<close>

definition sameEntries :: "TokenMap \<Rightarrow> TokenMap \<Rightarrow> bool" where
  "sameEntries a b = (mset a = mset b)"

definition sameTokens :: "DesignTokens \<Rightarrow> DesignTokens \<Rightarrow> bool" where
  "sameTokens a b =
     (sameEntries (colors a) (colors b) \<and> sameEntries (spacing a) (spacing b) \<and>
      (case (borderRadius a, borderRadius b) of
         (None, None) \<Rightarrow> True
       | (Some x, Some y) \<Rightarrow> sameEntries x y
       | _ \<Rightarrow> False))"

definition keysOnce :: "DesignTokens \<Rightarrow> bool" where
  "keysOnce a =
     (distinct (map fst (colors a)) \<and> distinct (map fst (spacing a)) \<and>
      (case borderRadius a of None \<Rightarrow> True | Some r \<Rightarrow> distinct (map fst r)))"



definition expectedNames :: "DesignTokens \<Rightarrow> string set" where
  "expectedNames a =
     fst ` set (colors a) \<union> fst ` set (spacing a) \<union>
     (case borderRadius a of None \<Rightarrow> {} | Some r \<Rightarrow> fst ` set r)"

text \<open>The options of a call that passes none (\<open>options = {}\<close>).\<close>

definition noOptions :: ComparisonOptions where
  "noOptions =
     \<lparr> colorTolerance = None, spacingTolerance = None, checkExtraTokens = None,
       minMatchPercentage = None \<rparr>"

text \<open>The three category comparisons that \<open>compareDesignTokens\<close> adds up.\<close>

definition colorPart :: "DesignTokens \<Rightarrow> CSSTokens \<Rightarrow> ComparisonOptions \<Rightarrow> TokenComparisonResult" where
  "colorPart d c opts =
     compareColors (colors d) (colors c)
       (optionValue (colorTolerance (mergeOptions DEFAULT_OPTIONS opts)) 5)"

definition spacingPart :: "DesignTokens \<Rightarrow> CSSTokens \<Rightarrow> ComparisonOptions \<Rightarrow> TokenComparisonResult" where
  "spacingPart d c opts =
     compareSpacing (spacing d) (spacing c)
       (optionValue (spacingTolerance (mergeOptions DEFAULT_OPTIONS opts)) 2) SpacingType"

definition radiusPart :: "DesignTokens \<Rightarrow> CSSTokens \<Rightarrow> ComparisonOptions \<Rightarrow> TokenComparisonResult" where
  "radiusPart d c opts =
     (case borderRadius d of
        None \<Rightarrow> zeroResult
      | Some r \<Rightarrow>
          compareSpacing r (extractedRadius c)
            (optionValue (spacingTolerance (mergeOptions DEFAULT_OPTIONS opts)) 2) BorderRadiusType)"

text \<open>Token sets to evaluate the comparison on.\<close>

definition orderTokens :: DesignTokens where
  "orderTokens =
     \<lparr> colors = [], fonts = [], spacing = [(''sm'', ''4px'')], borderRadius = None, shadows = None \<rparr>"

definition orderCssA :: CSSTokens where
  "orderCssA =
     \<lparr> colors = [], fonts = [], spacing = [(''SM'', ''4px''), (''Sm'', ''40px'')],
       borderRadius = None, shadows = None \<rparr>"

definition orderCssB :: CSSTokens where
  "orderCssB =
     \<lparr> colors = [], fonts = [], spacing = [(''Sm'', ''40px''), (''SM'', ''4px'')],
       borderRadius = None, shadows = None \<rparr>"

definition sampleDesign :: DesignTokens where
  "sampleDesign =
     \<lparr> colors = [(''primary'', ''#fff'')], fonts = [],
       spacing = [(''sm'', ''4px''), (''lg'', ''20px'')],
       borderRadius = Some [(''card'', ''0.5rem'')], shadows = None \<rparr>"

definition sampleDesignReordered :: DesignTokens where
  "sampleDesignReordered =
     \<lparr> colors = [(''primary'', ''#fff'')], fonts = [],
       spacing = [(''lg'', ''20px''), (''sm'', ''4px'')],
       borderRadius = Some [(''card'', ''0.5rem'')], shadows = None \<rparr>"

definition sampleCss :: CSSTokens where
  "sampleCss =
     \<lparr> colors = [(''primary'', ''#FFFFFF''), (''extra'', ''#000000'')], fonts = [],
       spacing = [(''sm'', ''4px''), (''LG'', ''16px'')],
       borderRadius = Some [(''card'', ''8px'')], shadows = None \<rparr>"

definition sampleCssReordered :: CSSTokens where
  "sampleCssReordered =
     \<lparr> colors = [(''extra'', ''#000000''), (''primary'', ''#FFFFFF'')], fonts = [],
       spacing = [(''LG'', ''16px''), (''sm'', ''4px'')],
       borderRadius = Some [(''card'', ''8px'')], shadows = None \<rparr>"




section \<open>Notions for stating the properties of colour normalisation\<close>






section \<open>Messages, mailboxes and agents (src/core/agent.ts)\<close>

text \<open>
  The state the pipeline works on is the project's files: the queue, the four message
  files, the agent part of the status file, the saved design tokens and the verification
  report. A message file may be unreadable (missing, or not JSON): then \<open>readJSON\<close> throws.
  The queue and the status file are written by the orchestrator alone and are always
  readable. Two more fields record what happened and are read by nothing: the agents
  invoked, in order, and every queue state that \<open>saveQueue\<close> wrote, in order.

  The external agent is a parameter: given its id, its prompt and the files it finds, it
  returns a result and leaves the message files in any state it likes. The extraction of
  the implementation's tokens, called once in a run, is a parameter: the token set it
  returns, or what it throws. Prompts
  are kept as the data their text is built from. Time stamps, the logger and the
  platform tag are left out.
\<close>

datatype MessageTarget = ToDesigner | ToTechLead | ToDeveloper | ToTeamLead

datatype BuildStatus = BuildSuccess | BuildFailed | BuildNotApplicable | BuildNotVerified

record BuildResult =
  buildStatus :: BuildStatus
  command :: string
  errors :: int

record BaseMessage =
  taskId :: string

record TaskAssignmentMessage = BaseMessage +
  instructions :: string

record CompletionReportMessage = BaseMessage +
  summary :: string
  buildResult :: BuildResult

record PlanningDocumentMessage = BaseMessage +
  productVision :: string

record DesignSpecificationMessage = BaseMessage +
  designTokens :: DesignTokens

record DesignVerificationMessage = BaseMessage +
  comparison :: ComparisonResult

datatype Message =
    TaskAssignment TaskAssignmentMessage
  | CompletionReport CompletionReportMessage
  | PlanningDocument PlanningDocumentMessage
  | DesignSpecification DesignSpecificationMessage
  | DesignVerification DesignVerificationMessage

record MessageFile =
  messages :: "Message list"

type_synonym Mailboxes = "MessageTarget \<Rightarrow> MessageFile option"

datatype AgentId = PlannerAgent | DesignerAgent | TechLeadAgent | DeveloperAgent | ReviewAgent

datatype AgentKey = PlannerKey | DesignerKey | TechLeadKey | DeveloperKey

datatype AgentStatus =
  Idle | Planning | Designing | Analyzing | Assigning | Implementing | Reviewing | Verifying

datatype Prompt =
    PlanningPrompt Task
  | DesignPrompt Task PlanningDocumentMessage
  | TechLeadPrompt Task PlanningDocumentMessage DesignSpecificationMessage
  | DeveloperPrompt Task TaskAssignmentMessage
  | ReviewPrompt Task CompletionReportMessage

record AgentResult =
  success :: bool
  output_text :: string
  error :: "string option"
  exitCode :: int

record World =
  queue :: TaskQueue
  mail :: Mailboxes
  agentStatus :: "AgentKey \<Rightarrow> AgentStatus"
  developerTask :: "string option"
  designTokensFile :: "DesignTokens option"
  verificationReport :: "DesignVerificationMessage option"
  invocations :: "AgentId list"
  persisted :: "TaskQueue list"

record Env =
  runClaudeAgent :: "AgentId \<Rightarrow> Prompt \<Rightarrow> World \<Rightarrow> AgentResult \<times> Mailboxes"
  extractCSSTokens :: "jsError + CSSTokens"

text \<open>An asynchronous function of the source: it changes the files and returns a value or
  throws. What it wrote before it threw stays written.\<close>

type_synonym 'a action = "World \<Rightarrow> (jsError + 'a) \<times> World"

definition returnA :: "'a \<Rightarrow> 'a action" where
  "returnA x = (\<lambda>w. (Inr x, w))"

definition throwA :: "jsError \<Rightarrow> 'a action" where
  "throwA e = (\<lambda>w. (Inl e, w))"

definition bindA :: "'a action \<Rightarrow> ('a \<Rightarrow> 'b action) \<Rightarrow> 'b action" where
  "bindA m f = (\<lambda>w. case m w of (Inl e, w1) \<Rightarrow> (Inl e, w1) | (Inr a, w1) \<Rightarrow> f a w1)"

text \<open>\<open>try { m } catch (error) { h error }\<close>\<close>

definition catchA :: "'a action \<Rightarrow> (jsError \<Rightarrow> 'a action) \<Rightarrow> 'a action" where
  "catchA m h = (\<lambda>w. case m w of (Inl e, w1) \<Rightarrow> h e w1 | (Inr a, w1) \<Rightarrow> (Inr a, w1))"

text \<open>\<open>try { m } finally { c }\<close>: \<open>c\<close> runs whatever \<open>m\<close> did; if \<open>c\<close> throws, that is the
  outcome, otherwise the outcome of \<open>m\<close> stands.\<close>

definition finallyA :: "'a action \<Rightarrow> unit action \<Rightarrow> 'a action" where
  "finallyA m c =
     (\<lambda>w. case m w of
            (r, w1) \<Rightarrow> (case c w1 of (Inl e, w2) \<Rightarrow> (Inl e, w2) | (Inr u, w2) \<Rightarrow> (r, w2)))"

definition clearMessages :: "MessageTarget \<Rightarrow> unit action" where
  "clearMessages target = (\<lambda>w. (Inr (), w\<lparr> mail := (mail w)(target := Some \<lparr> messages = [] \<rparr>) \<rparr>))"

definition readMessages :: "MessageTarget \<Rightarrow> MessageFile action" where
  "readMessages target =
     (\<lambda>w. case mail w target of None \<Rightarrow> (Inl ReadFailed, w) | Some file \<Rightarrow> (Inr file, w))"

text \<open>\<open>updateAgentStatus\<close>; \<open>currentTask ?? status.developer.currentTask\<close> keeps the old
  task when none is given.\<close>

definition updateAgentStatus :: "AgentKey \<Rightarrow> AgentStatus \<Rightarrow> string option \<Rightarrow> unit action" where
  "updateAgentStatus agent s currentTask =
     (\<lambda>w. (Inr (),
        (if agent = DeveloperKey then
           w\<lparr> agentStatus := (agentStatus w)(agent := s),
              developerTask := (case currentTask of None \<Rightarrow> developerTask w | Some t \<Rightarrow> Some t) \<rparr>
         else w\<lparr> agentStatus := (agentStatus w)(agent := s) \<rparr>)))"

definition invokeAgent :: "Env \<Rightarrow> AgentId \<Rightarrow> Prompt \<Rightarrow> AgentResult action" where
  "invokeAgent env agent prompt =
     (\<lambda>w. case runClaudeAgent env agent prompt w of
            (result, boxes) \<Rightarrow>
              (Inr result, w\<lparr> mail := boxes, invocations := invocations w @ [agent] \<rparr>))"

text \<open>The store operations as the controller calls them: load the queue, change it, save it.\<close>

definition saveQueue :: "TaskQueue \<Rightarrow> unit action" where
  "saveQueue q = (\<lambda>w. (Inr (), w\<lparr> queue := q, persisted := persisted w @ [q] \<rparr>))"

definition storeSetCurrentTask :: "string option \<Rightarrow> unit action" where
  "storeSetCurrentTask i = (\<lambda>w. saveQueue (setCurrentTask i (queue w)) w)"

definition storeUpdateTaskStatus :: "string \<Rightarrow> TaskStatus \<Rightarrow> unit action" where
  "storeUpdateTaskStatus i s =
     (\<lambda>w. case updateTaskStatus i s (queue w) of
            Inl e \<Rightarrow> (Inl e, w)
          | Inr (task, q) \<Rightarrow> saveQueue q w)"

definition storeCompleteTask :: "string \<Rightarrow> unit action" where
  "storeCompleteTask i =
     (\<lambda>w. case completeTask i (queue w) of
            Inl e \<Rightarrow> (Inl e, w)
          | Inr q \<Rightarrow> saveQueue q w)"

definition storeRejectTask :: "string \<Rightarrow> string \<Rightarrow> unit action" where
  "storeRejectTask i reason =
     (\<lambda>w. case rejectTask i reason (queue w) of
            Inl e \<Rightarrow> (Inl e, w)
          | Inr (task, q) \<Rightarrow> saveQueue q w)"

text \<open>\<open>messages.find((m) => m.type === ... && m.taskId === task.id)\<close>, with the cast to the
  message type that follows it: the first message of that type for that task.\<close>

fun firstSome :: "('a \<Rightarrow> 'b option) \<Rightarrow> 'a list \<Rightarrow> 'b option" where
  "firstSome f [] = None"
| "firstSome f (x # xs) = (case f x of Some y \<Rightarrow> Some y | None \<Rightarrow> firstSome f xs)"

fun taskAssignmentFor :: "string \<Rightarrow> Message \<Rightarrow> TaskAssignmentMessage option" where
  "taskAssignmentFor i (TaskAssignment m) = (if taskId m = i then Some m else None)"
| "taskAssignmentFor i other = None"

fun completionReportFor :: "string \<Rightarrow> Message \<Rightarrow> CompletionReportMessage option" where
  "completionReportFor i (CompletionReport m) = (if taskId m = i then Some m else None)"
| "completionReportFor i other = None"

fun planningDocumentFor :: "string \<Rightarrow> Message \<Rightarrow> PlanningDocumentMessage option" where
  "planningDocumentFor i (PlanningDocument m) = (if taskId m = i then Some m else None)"
| "planningDocumentFor i other = None"

fun designSpecificationFor :: "string \<Rightarrow> Message \<Rightarrow> DesignSpecificationMessage option" where
  "designSpecificationFor i (DesignSpecification m) = (if taskId m = i then Some m else None)"
| "designSpecificationFor i other = None"

text \<open>\<open>x || fallback\<close> on a string that may be undefined: the fallback replaces
  \<open>undefined\<close> and the empty string.\<close>

definition orDefault :: "string option \<Rightarrow> string \<Rightarrow> string" where
  "orDefault x fallback = (case x of None \<Rightarrow> fallback | Some s \<Rightarrow> if s = [] then fallback else s)"

definition runPlanner :: "Env \<Rightarrow> Task \<Rightarrow> AgentResult action" where
  "runPlanner env task =
     bindA (updateAgentStatus PlannerKey Planning None) (\<lambda>u.
     bindA (clearMessages ToDesigner) (\<lambda>u.
     bindA (invokeAgent env PlannerAgent (PlanningPrompt task)) (\<lambda>result.
     bindA (updateAgentStatus PlannerKey Idle None) (\<lambda>u.
     returnA result))))"

definition runDesigner :: "Env \<Rightarrow> Task \<Rightarrow> PlanningDocumentMessage \<Rightarrow> AgentResult action" where
  "runDesigner env task planningDoc =
     bindA (updateAgentStatus DesignerKey Designing None) (\<lambda>u.
     bindA (clearMessages ToTechLead) (\<lambda>u.
     bindA (invokeAgent env DesignerAgent (DesignPrompt task planningDoc)) (\<lambda>result.
     bindA (updateAgentStatus DesignerKey Idle None) (\<lambda>u.
     returnA result))))"

definition runTechLead ::
  "Env \<Rightarrow> Task \<Rightarrow> PlanningDocumentMessage \<Rightarrow> DesignSpecificationMessage \<Rightarrow> AgentResult action" where
  "runTechLead env task planningDoc designSpec =
     bindA (updateAgentStatus TechLeadKey Assigning None) (\<lambda>u.
     bindA (clearMessages ToDeveloper) (\<lambda>u.
     bindA (invokeAgent env TechLeadAgent (TechLeadPrompt task planningDoc designSpec)) (\<lambda>result.
     bindA (updateAgentStatus TechLeadKey Idle None) (\<lambda>u.
     returnA result))))"

definition runDeveloper :: "Env \<Rightarrow> Task \<Rightarrow> AgentResult action" where
  "runDeveloper env task =
     bindA (readMessages ToDeveloper) (\<lambda>file.
       case firstSome (taskAssignmentFor (task_id task)) (messages file) of
         None \<Rightarrow>
           returnA \<lparr> success = False, output_text = [],
                     error = Some ''No instructions found from Team Lead'', exitCode = - 1 \<rparr>
       | Some instruction \<Rightarrow>
           bindA (updateAgentStatus DeveloperKey Implementing (Some (task_id task))) (\<lambda>u.
           bindA (clearMessages ToTeamLead) (\<lambda>u.
           bindA (invokeAgent env DeveloperAgent (DeveloperPrompt task instruction)) (\<lambda>result.
           bindA (updateAgentStatus DeveloperKey Idle None) (\<lambda>u.
           returnA result)))))"

text \<open>
  The pattern \<open>/REJECT:\s*(.+)/i\<close> at a position: the text \<open>reject:\<close> in any case, white
  space, and the rest of the line, which must hold a character. When only white space
  follows, the white space gives back its last character that is not a line terminator.
\<close>

definition restOfLine :: "string \<Rightarrow> string" where
  "restOfLine s = takeWhile (\<lambda>c. \<not> isLineTerminator c) s"

definition matchRejectAt :: "string \<Rightarrow> string option" where
  "matchRejectAt s =
     (if toLowerCase (take 7 s) = ''reject:'' then
        (let rest = drop 7 s; after = dropWhile isSpace rest
         in if after \<noteq> [] then Some (restOfLine after)
            else (case find (\<lambda>c. \<not> isLineTerminator c) (rev rest) of
                    Some c \<Rightarrow> Some [c]
                  | None \<Rightarrow> None))
      else None)"

fun rejectMatch :: "string \<Rightarrow> string option" where
  "rejectMatch [] = None"
| "rejectMatch (c # s) =
     (case matchRejectAt (c # s) of Some r \<Rightarrow> Some r | None \<Rightarrow> rejectMatch s)"

record ReviewResult =
  approved :: bool
  reason :: "string option"

definition runReview :: "Env \<Rightarrow> Task \<Rightarrow> ReviewResult action" where
  "runReview env task =
     bindA (readMessages ToTeamLead) (\<lambda>file.
       case firstSome (completionReportFor (task_id task)) (messages file) of
         None \<Rightarrow> returnA \<lparr> approved = False, reason = Some ''No completion report found'' \<rparr>
       | Some report \<Rightarrow>
           if buildStatus (buildResult report) = BuildFailed then
             returnA \<lparr> approved = False, reason = Some ''Build verification failed'' \<rparr>
           else
             bindA (updateAgentStatus TechLeadKey Reviewing None) (\<lambda>u.
             bindA (invokeAgent env ReviewAgent (ReviewPrompt task report)) (\<lambda>result.
             bindA (updateAgentStatus TechLeadKey Idle None) (\<lambda>u.
               if includesStr (toLowerCase (output_text result)) ''approve'' then
                 returnA \<lparr> approved = True, reason = None \<rparr>
               else
                 returnA \<lparr> approved = False,
                           reason = Some (case rejectMatch (output_text result) of
                                            Some r \<Rightarrow> trim r
                                          | None \<Rightarrow> ''Review failed'') \<rparr>))))"

definition verificationOptions :: ComparisonOptions where
  "verificationOptions =
     \<lparr> colorTolerance = None, spacingTolerance = None, checkExtraTokens = None,
       minMatchPercentage = Some 90 \<rparr>"

definition writeVerificationReport :: "DesignVerificationMessage \<Rightarrow> unit action" where
  "writeVerificationReport m = (\<lambda>w. (Inr (), w\<lparr> verificationReport := Some m \<rparr>))"

definition runDesignVerification ::
  "Env \<Rightarrow> Task \<Rightarrow> DesignSpecificationMessage \<Rightarrow> VerificationOutcome action" where
  "runDesignVerification env task designSpec =
     bindA (updateAgentStatus DesignerKey Verifying None) (\<lambda>u.
     finallyA
       (catchA
          (bindA (\<lambda>w. (extractCSSTokens env, w)) (\<lambda>cssTokens.
             let result = compareDesignTokens (designTokens designSpec) cssTokens verificationOptions
             in bindA (writeVerificationReport \<lparr> taskId = task_id task, comparison = result \<rparr>) (\<lambda>u.
                returnA \<lparr> verified = verified result, matchPercentage = matchPercentage result,
                          discrepancies = discrepancies result \<rparr>)))
          (\<lambda>e. returnA \<lparr> verified = True, matchPercentage = 0, discrepancies = [] \<rparr>))
       (updateAgentStatus DesignerKey Idle None))"

section \<open>The pipeline controller: \<open>processTaskV2\<close>\<close>

datatype Phase =
  PlannerPhase | DesignerPhase | TechLeadPhase | DeveloperPhase | ReviewPhase | VerificationPhase

text \<open>The \<open>error\<close> of a result: a text, or \<open>String(error)\<close> of what was thrown.\<close>

datatype ResultError = ErrorText string | ErrorThrown jsError

record ProcessTaskResultV2 =
  success_task :: bool
  error_task :: "ResultError option"
  phase :: "Phase option"
  designVerification :: "VerificationOutcome option"

definition phaseFailed :: "string \<Rightarrow> Phase \<Rightarrow> ProcessTaskResultV2" where
  "phaseFailed text p =
     \<lparr> success_task = False, error_task = Some (ErrorText text), phase = Some p,
       designVerification = None \<rparr>"

definition saveDesignTokens :: "DesignTokens \<Rightarrow> unit action" where
  "saveDesignTokens tokens = (\<lambda>w. (Inr (), w\<lparr> designTokensFile := Some tokens \<rparr>))"

text \<open>
  Phases 1 to 4 of the \<open>try\<close> block, up to the status \<open>awaiting_review\<close>: the result of an
  early \<open>return\<close> on the left, the design specification the later phases need on the right.
\<close>

definition implementationPhases ::
  "Env \<Rightarrow> Task \<Rightarrow> (ProcessTaskResultV2 + DesignSpecificationMessage) action" where
  "implementationPhases env task =
     bindA (storeSetCurrentTask (Some (task_id task))) (\<lambda>u.
     bindA (storeUpdateTaskStatus (task_id task) InProgress) (\<lambda>u.
     bindA (runPlanner env task) (\<lambda>plannerResult.
       if \<not> success plannerResult then
         returnA (Inl (phaseFailed
           (orDefault (error plannerResult) ''Planner failed to create planning document'')
           PlannerPhase))
       else
     bindA (readMessages ToDesigner) (\<lambda>plannerMessages.
       case firstSome (planningDocumentFor (task_id task)) (messages plannerMessages) of
         None \<Rightarrow>
           returnA (Inl (phaseFailed ''Planner did not create planning document'' PlannerPhase))
       | Some planningDoc \<Rightarrow>
     bindA (runDesigner env task planningDoc) (\<lambda>designerResult.
       if \<not> success designerResult then
         returnA (Inl (phaseFailed
           (orDefault (error designerResult) ''Designer failed to create design specification'')
           DesignerPhase))
       else
     bindA (readMessages ToTechLead) (\<lambda>designerMessages.
       case firstSome (designSpecificationFor (task_id task)) (messages designerMessages) of
         None \<Rightarrow>
           returnA (Inl (phaseFailed ''Designer did not create design specification'' DesignerPhase))
       | Some designSpec \<Rightarrow>
     bindA (saveDesignTokens (designTokens designSpec)) (\<lambda>u.
     bindA (runTechLead env task planningDoc designSpec) (\<lambda>techLeadResult.
       if \<not> success techLeadResult then
         returnA (Inl (phaseFailed
           (orDefault (error techLeadResult) ''Tech Lead failed to create instructions'')
           TechLeadPhase))
       else
     bindA (runDeveloper env task) (\<lambda>developerResult.
       if \<not> success developerResult then
         returnA (Inl (phaseFailed
           (orDefault (error developerResult) ''Developer failed to implement task'')
           DeveloperPhase))
       else
     bindA (storeUpdateTaskStatus (task_id task) AwaitingReview) (\<lambda>u.
     returnA (Inr designSpec)))))))))))"

text \<open>Phases 5 and 6 of the \<open>try\<close> block. The message file read after \<open>completeTask\<close> feeds
  the development log only, but reading it can throw.\<close>

definition reviewPhases :: "Env \<Rightarrow> Task \<Rightarrow> DesignSpecificationMessage \<Rightarrow> ProcessTaskResultV2 action" where
  "reviewPhases env task designSpec =
     bindA (runReview env task) (\<lambda>reviewResult.
       if \<not> approved reviewResult then
         bindA (storeRejectTask (task_id task) (orDefault (reason reviewResult) ''Review failed'')) (\<lambda>u.
         returnA (phaseFailed (orDefault (reason reviewResult) ''Review failed'') ReviewPhase))
       else
     bindA (runDesignVerification env task designSpec) (\<lambda>verificationResult.
     bindA (storeCompleteTask (task_id task)) (\<lambda>u.
     bindA (readMessages ToTeamLead) (\<lambda>logMessages.
     returnA \<lparr> success_task = True, error_task = None, phase = None,
               designVerification = Some verificationResult \<rparr>))))"

definition releaseAndClear :: "unit action" where
  "releaseAndClear =
     bindA (storeSetCurrentTask None) (\<lambda>u.
     bindA (clearMessages ToDesigner) (\<lambda>u.
     bindA (clearMessages ToTechLead) (\<lambda>u.
     bindA (clearMessages ToDeveloper) (\<lambda>u.
     clearMessages ToTeamLead))))"

definition processTaskV2 :: "Env \<Rightarrow> Task \<Rightarrow> ProcessTaskResultV2 action" where
  "processTaskV2 env task =
     finallyA
       (catchA
          (bindA (implementationPhases env task) (\<lambda>r.
             case r of Inl early \<Rightarrow> returnA early | Inr designSpec \<Rightarrow> reviewPhases env task designSpec))
          (\<lambda>e. returnA \<lparr> success_task = False, error_task = Some (ErrorThrown e), phase = None,
                         designVerification = None \<rparr>))
       releaseAndClear"

section \<open>Notions for stating the properties of the pipeline\<close>

text \<open>A property of the files that an action keeps, whether it returns or throws.\<close>

definition keeps :: "(World \<Rightarrow> bool) \<Rightarrow> 'a action \<Rightarrow> bool" where
  "keeps I m = (\<forall>w. I w \<longrightarrow> I (snd (m w)))"

text \<open>What holds of the value and the files when an action that started under \<open>P\<close> returns.\<close>

definition returns :: "(World \<Rightarrow> bool) \<Rightarrow> 'a action \<Rightarrow> ('a \<Rightarrow> World \<Rightarrow> bool) \<Rightarrow> bool" where
  "returns P m Q = (\<forall>w. P w \<longrightarrow> (case m w of (Inl e, w1) \<Rightarrow> True | (Inr a, w1) \<Rightarrow> Q a w1))"

text \<open>The first active task with a given id.\<close>

definition activeTask :: "string \<Rightarrow> TaskQueue \<Rightarrow> Task option" where
  "activeTask i q = find (\<lambda>t. task_id t = i) (tasks q)"



definition reviewCount :: "World \<Rightarrow> nat" where
  "reviewCount w = count_list (invocations w) ReviewAgent"


text \<open>What holds when phases 1 to 4 hand over to the review: the task is active and awaits
  review.\<close>

definition handedOver :: "string \<Rightarrow> (ProcessTaskResultV2 + DesignSpecificationMessage) \<Rightarrow> World \<Rightarrow> bool" where
  "handedOver i r w =
     (case r of
        Inl early \<Rightarrow> True
      | Inr designSpec \<Rightarrow>
          (case activeTask i (queue w) of None \<Rightarrow> False | Some t \<Rightarrow> status t = AwaitingReview))"


definition allCleared :: Mailboxes where
  "allCleared = (\<lambda>target. Some \<lparr> messages = [] \<rparr>)"

text \<open>
  An agent to run the pipeline with: each role succeeds and writes the message its prompt
  asks for, the developer reporting the given build status, and the review agent prints the
  given text. A second agent always fails.
\<close>

fun promptTask :: "Prompt \<Rightarrow> Task" where
  "promptTask (PlanningPrompt t) = t"
| "promptTask (DesignPrompt t d) = t"
| "promptTask (TechLeadPrompt t d s) = t"
| "promptTask (DeveloperPrompt t a) = t"
| "promptTask (ReviewPrompt t r) = t"

definition agentOk :: "string \<Rightarrow> AgentResult" where
  "agentOk text = \<lparr> success = True, output_text = text, error = None, exitCode = 0 \<rparr>"

definition scriptedAgent ::
  "BuildStatus \<Rightarrow> string \<Rightarrow> AgentId \<Rightarrow> Prompt \<Rightarrow> World \<Rightarrow> AgentResult \<times> Mailboxes" where
  "scriptedAgent build reviewText agent prompt w =
     (let i = task_id (promptTask prompt)
      in case agent of
           PlannerAgent \<Rightarrow>
             (agentOk [], (mail w)(ToDesigner := Some \<lparr> messages =
                [PlanningDocument \<lparr> taskId = i, productVision = ''vision'' \<rparr>] \<rparr>))
         | DesignerAgent \<Rightarrow>
             (agentOk [], (mail w)(ToTechLead := Some \<lparr> messages =
                [DesignSpecification \<lparr> taskId = i, designTokens = orderTokens \<rparr>] \<rparr>))
         | TechLeadAgent \<Rightarrow>
             (agentOk [], (mail w)(ToDeveloper := Some \<lparr> messages =
                [TaskAssignment \<lparr> taskId = i, instructions = ''do it'' \<rparr>] \<rparr>))
         | DeveloperAgent \<Rightarrow>
             (agentOk [], (mail w)(ToTeamLead := Some \<lparr> messages =
                [CompletionReport \<lparr> taskId = i, summary = ''done'',
                   buildResult = \<lparr> buildStatus = build, command = ''npm run build'', errors = 0 \<rparr> \<rparr>] \<rparr>))
         | ReviewAgent \<Rightarrow> (agentOk reviewText, mail w))"

definition scriptedEnv :: "BuildStatus \<Rightarrow> string \<Rightarrow> jsError + CSSTokens \<Rightarrow> Env" where
  "scriptedEnv build reviewText extraction =
     \<lparr> runClaudeAgent = scriptedAgent build reviewText, extractCSSTokens = extraction \<rparr>"


definition firstTask :: Task where
  "firstTask = exampleTask ''task-001'' High Pending 1"

definition startWorld :: World where
  "startWorld =
     \<lparr> queue = \<lparr> tasks = [firstTask], completed = [], current = None \<rparr>,
       mail = (\<lambda>target. None),
       agentStatus = (\<lambda>agent. Idle),
       developerTask = None,
       designTokensFile = None,
       verificationReport = None,
       invocations = [],
       persisted = [] \<rparr>"

section \<open>Properties of the task store\<close>




























lemma findIndex_Some: "findIndex P xs = Some i \<Longrightarrow> i < length xs \<and> P (xs ! i)"
proof (induction xs arbitrary: i)
  case Nil
  then show ?case by simp
next
  case (Cons x xs)
  then show ?case by (auto split: if_splits)
qed

lemma findIndex_None: "findIndex P xs = None \<longleftrightarrow> (\<forall>x\<in>set xs. \<not> P x)"
  by (induction xs) auto






lemma set_insertBy: "set (insertBy cmp x ys) = insert x (set ys)"
  by (induction ys) auto

lemma set_sortBy: "set (sortBy cmp xs) = set xs"
  by (induction xs) (simp_all add: sortBy_def set_insertBy)

lemma sortBy_Cons: "sortBy cmp (x # xs) = insertBy cmp x (sortBy cmp xs)"
  by (simp add: sortBy_def)

lemma sortBy_eq_Nil: "sortBy cmp xs = [] \<longleftrightarrow> xs = []"
  using set_sortBy [of cmp xs] by (metis set_empty)

lemma hd_insertBy:
  "hd (insertBy cmp x ys) = (if ys = [] then x else if cmp x (hd ys) \<le> 0 then x else hd ys)"
  by (cases ys) auto

lemma priorityOrder_eq_iff: "priorityOrder p = priorityOrder q \<longleftrightarrow> p = q"
  by (cases p; cases q) simp_all

lemma comparePending_le_iff:
  "comparePending a b \<le> 0 \<longleftrightarrow>
     priorityOrder (priority b) < priorityOrder (priority a) \<or>
     (priority b = priority a \<and> createdAt a \<le> createdAt b)"
  by (cases "priority a"; cases "priority b") (simp_all add: comparePending_def)

lemma comparePending_refl: "comparePending a a \<le> 0"
  by (simp add: comparePending_le_iff)

lemma comparePending_total: "comparePending a b \<le> 0 \<or> comparePending b a \<le> 0"
  by (cases "priority a"; cases "priority b") (auto simp: comparePending_def)

lemma comparePending_trans:
  "comparePending a b \<le> 0 \<Longrightarrow> comparePending b c \<le> 0 \<Longrightarrow> comparePending a c \<le> 0"
  by (cases "priority a"; cases "priority b"; cases "priority c") (simp_all add: comparePending_def)

lemma find_cong_set: "(\<And>x. x \<in> set xs \<Longrightarrow> P x = Q x) \<Longrightarrow> find P xs = find Q xs"
  by (induction xs) auto

lemma find_Some_props: "find P xs = Some x \<Longrightarrow> x \<in> set xs \<and> P x"
  by (induction xs) (auto split: if_splits)

lemma hd_sortBy_first_minimum:
  "xs \<noteq> [] \<Longrightarrow>
     find (\<lambda>x. \<forall>y\<in>set xs. comparePending x y \<le> 0) xs = Some (hd (sortBy comparePending xs))"
proof (induction xs)
  case Nil
  then show ?case by simp
next
  case (Cons x xs)
  show ?case
  proof (cases "xs = []")
    case True
    then show ?thesis by (simp add: sortBy_def comparePending_refl)
  next
    case False
    define h where "h = hd (sortBy comparePending xs)"
    from Cons.IH [OF False] have ih: "find (\<lambda>z. \<forall>y\<in>set xs. comparePending z y \<le> 0) xs = Some h"
      by (simp add: h_def)
    from find_Some_props [OF ih] have hin: "h \<in> set xs"
      and hmin: "\<forall>y\<in>set xs. comparePending h y \<le> 0" by simp_all
    have hd_eq: "hd (sortBy comparePending (x # xs)) = (if comparePending x h \<le> 0 then x else h)"
      using False by (simp add: sortBy_Cons hd_insertBy sortBy_eq_Nil h_def)
    show ?thesis
    proof (cases "comparePending x h \<le> 0")
      case True
      have "\<forall>y\<in>set xs. comparePending x y \<le> 0"
        using True hmin comparePending_trans by blast
      then show ?thesis using True by (simp add: hd_eq comparePending_refl)
    next
      case no: False
      then have hx: "comparePending h x \<le> 0" using comparePending_total [of x h] by simp
      have same: "(\<forall>y\<in>set (x # xs). comparePending z y \<le> 0) = (\<forall>y\<in>set xs. comparePending z y \<le> 0)"
        if "z \<in> set xs" for z
      proof
        assume "\<forall>y\<in>set (x # xs). comparePending z y \<le> 0"
        then show "\<forall>y\<in>set xs. comparePending z y \<le> 0" by simp
      next
        assume a: "\<forall>y\<in>set xs. comparePending z y \<le> 0"
        with hin have "comparePending z h \<le> 0" by blast
        from comparePending_trans [OF this hx] a
        show "\<forall>y\<in>set (x # xs). comparePending z y \<le> 0" by simp
      qed
      have notx: "\<not> (\<forall>y\<in>set (x # xs). comparePending x y \<le> 0)"
        using no hin by auto
      have "find (\<lambda>z. \<forall>y\<in>set (x # xs). comparePending z y \<le> 0) (x # xs) =
            find (\<lambda>z. \<forall>y\<in>set (x # xs). comparePending z y \<le> 0) xs"
        using notx by (simp only: find.simps if_False)
      also have "\<dots> = find (\<lambda>z. \<forall>y\<in>set xs. comparePending z y \<le> 0) xs"
        by (rule find_cong_set) (rule same)
      finally show ?thesis using ih no by (simp only: hd_eq if_False)
    qed
  qed
qed

lemma find_first_stable:
  assumes "find P xs = Some t" and "\<And>x. x \<in> set xs \<Longrightarrow> Q x \<Longrightarrow> P x" and "Q t"
  shows "find Q xs = Some t"
  using assms
proof (induction xs)
  case Nil
  then show ?case by simp
next
  case (Cons x xs)
  then show ?case by (auto split: if_splits)
qed

lemma find_filter: "find P (filter Q xs) = find (\<lambda>x. Q x \<and> P x) xs"
  by (induction xs) auto

text \<open>
  Claim C8. On a queue with a pending task, \<open>getNextPendingTask\<close> returns a pending task
  whose priority no pending task exceeds (high over medium over low), whose creation time
  is the earliest among the pending tasks of that priority, and which is the first such
  task in queue order; on a queue with no pending task it returns nothing.
\<close>

theorem getNextPendingTask_selects:
  "(getPendingTasks q = [] \<longrightarrow> getNextPendingTask q = None) \<and>
   (getPendingTasks q \<noteq> [] \<longrightarrow>
      (\<exists>t. getNextPendingTask q = Some t \<and> t \<in> set (tasks q) \<and> status t = Pending \<and>
         (\<forall>u\<in>set (tasks q). status u = Pending \<longrightarrow>
            priorityOrder (priority u) \<le> priorityOrder (priority t)) \<and>
         (\<forall>u\<in>set (tasks q). status u = Pending \<and> priority u = priority t \<longrightarrow>
            createdAt t \<le> createdAt u) \<and>
         find (\<lambda>u. status u = Pending \<and> priority u = priority t \<and> createdAt u = createdAt t)
           (tasks q) = Some t)) \<and>
   priorityOrder Low < priorityOrder Medium \<and> priorityOrder Medium < priorityOrder High"
proof (intro conjI impI)
  assume "getPendingTasks q = []"
  then show "getNextPendingTask q = None" by (simp add: getNextPendingTask_def)
next
  assume ne: "getPendingTasks q \<noteq> []"
  define pending where "pending = getPendingTasks q"
  define t where "t = hd (sortBy comparePending pending)"
  have res: "getNextPendingTask q = Some t"
    using ne by (simp add: getNextPendingTask_def t_def pending_def)
  from hd_sortBy_first_minimum [of pending] ne
  have first: "find (\<lambda>x. \<forall>y\<in>set pending. comparePending x y \<le> 0) pending = Some t"
    by (simp add: t_def pending_def)
  from find_Some_props [OF first] have tin: "t \<in> set pending"
    and tmin: "\<forall>y\<in>set pending. comparePending t y \<le> 0" by simp_all
  have pend: "set pending = {u \<in> set (tasks q). status u = Pending}"
    by (auto simp: pending_def getPendingTasks_def)
  have a: "t \<in> set (tasks q)" "status t = Pending" using tin pend by auto
  have b: "\<forall>u\<in>set (tasks q). status u = Pending \<longrightarrow>
            priorityOrder (priority u) \<le> priorityOrder (priority t)"
    using tmin pend by (auto simp: comparePending_le_iff)
  have c: "\<forall>u\<in>set (tasks q). status u = Pending \<and> priority u = priority t \<longrightarrow>
            createdAt t \<le> createdAt u"
    using tmin pend by (auto simp: comparePending_le_iff)
  have "find (\<lambda>u. priority u = priority t \<and> createdAt u = createdAt t) pending = Some t"
  proof (rule find_first_stable [OF first])
    fix x assume x: "x \<in> set pending" and "priority x = priority t \<and> createdAt x = createdAt t"
    then have "comparePending x t \<le> 0" by (simp add: comparePending_le_iff)
    with tmin comparePending_trans show "\<forall>y\<in>set pending. comparePending x y \<le> 0" by blast
  qed simp
  then have d: "find (\<lambda>u. status u = Pending \<and> priority u = priority t \<and> createdAt u = createdAt t)
           (tasks q) = Some t"
    by (simp add: pending_def getPendingTasks_def find_filter)
  from res a b c d
  show "\<exists>t. getNextPendingTask q = Some t \<and> t \<in> set (tasks q) \<and> status t = Pending \<and>
         (\<forall>u\<in>set (tasks q). status u = Pending \<longrightarrow>
            priorityOrder (priority u) \<le> priorityOrder (priority t)) \<and>
         (\<forall>u\<in>set (tasks q). status u = Pending \<and> priority u = priority t \<longrightarrow>
            createdAt t \<le> createdAt u) \<and>
         find (\<lambda>u. status u = Pending \<and> priority u = priority t \<and> createdAt u = createdAt t)
           (tasks q) = Some t" by blast
qed simp_all

theorem getNextPendingTask_selects_witness:
  "getPendingTasks exampleQueue \<noteq> [] \<and>
   getNextPendingTask exampleQueue = Some (exampleTask ''task-011'' High Pending 30)"
  using getNextPendingTask_selects [of exampleQueue]
  by (simp add: exampleQueue_def exampleTask_def getPendingTasks_def getNextPendingTask_def
      sortBy_def comparePending_def)



section \<open>Properties of the token comparison\<close>

lemma colorStep_plus:
  "compareColorStep css tol acc e = plusResult acc (compareColorStep css tol zeroResult e)"
  by (simp add: compareColorStep_def plusResult_def zeroResult_def Let_def split: option.splits)

lemma spacingStep_plus:
  "compareSpacingStep css tol ty acc e = plusResult acc (compareSpacingStep css tol ty zeroResult e)"
  by (simp add: compareSpacingStep_def plusResult_def zeroResult_def Let_def split: option.splits)

lemma plusResult_zero: "plusResult a zeroResult = a"
  by (simp add: plusResult_def zeroResult_def)

lemma plusResult_assoc: "plusResult (plusResult a b) c = plusResult a (plusResult b c)"
  by (simp add: plusResult_def)

lemma foldl_plus:
  assumes step: "\<And>acc e. f acc e = plusResult acc (f zeroResult e)"
  shows "foldl f acc es = plusResult acc (foldl f zeroResult es)"
proof (induction es arbitrary: acc)
  case Nil
  show ?case by (simp add: plusResult_zero)
next
  case (Cons e es)
  have "foldl f acc (e # es) = foldl f (f acc e) es" by simp
  also have "\<dots> = plusResult (f acc e) (foldl f zeroResult es)" by (rule Cons.IH)
  also have "\<dots> = plusResult (plusResult acc (f zeroResult e)) (foldl f zeroResult es)"
    by (subst step) simp
  also have "\<dots> = plusResult acc (plusResult (f zeroResult e) (foldl f zeroResult es))"
    by (rule plusResult_assoc)
  also have "plusResult (f zeroResult e) (foldl f zeroResult es) = foldl f (f zeroResult e) es"
    by (rule Cons.IH [symmetric])
  finally show ?case by simp
qed

lemma foldl_Cons_plus:
  assumes step: "\<And>acc e. f acc e = plusResult acc (f zeroResult e)"
  shows "foldl f zeroResult (e # es) = plusResult (f zeroResult e) (foldl f zeroResult es)"
proof -
  have "foldl f zeroResult (e # es) = foldl f (f zeroResult e) es" by simp
  also have "\<dots> = plusResult (f zeroResult e) (foldl f zeroResult es)"
    by (rule foldl_plus [OF step])
  finally show ?thesis .
qed

lemma foldl_matching:
  assumes step: "\<And>acc e. f acc e = plusResult acc (f zeroResult e)"
  shows "matching (foldl f zeroResult es) = sum_list (map (\<lambda>e. matching (f zeroResult e)) es)"
proof (induction es)
  case Nil
  show ?case by (simp add: zeroResult_def)
next
  case (Cons e es)
  then show ?case by (simp add: foldl_Cons_plus [OF step] plusResult_def del: foldl_Cons)
qed

lemma foldl_mismatched:
  assumes step: "\<And>acc e. f acc e = plusResult acc (f zeroResult e)"
  shows "mismatched (foldl f zeroResult es) = sum_list (map (\<lambda>e. mismatched (f zeroResult e)) es)"
proof (induction es)
  case Nil
  show ?case by (simp add: zeroResult_def)
next
  case (Cons e es)
  then show ?case by (simp add: foldl_Cons_plus [OF step] plusResult_def del: foldl_Cons)
qed

lemma foldl_missing:
  assumes step: "\<And>acc e. f acc e = plusResult acc (f zeroResult e)"
  shows "missing (foldl f zeroResult es) = sum_list (map (\<lambda>e. missing (f zeroResult e)) es)"
proof (induction es)
  case Nil
  show ?case by (simp add: zeroResult_def)
next
  case (Cons e es)
  then show ?case by (simp add: foldl_Cons_plus [OF step] plusResult_def del: foldl_Cons)
qed

lemma foldl_found:
  assumes step: "\<And>acc e. f acc e = plusResult acc (f zeroResult e)"
  shows "found (foldl f zeroResult es) = concat (map (\<lambda>e. found (f zeroResult e)) es)"
proof (induction es)
  case Nil
  show ?case by (simp add: zeroResult_def)
next
  case (Cons e es)
  then show ?case by (simp add: foldl_Cons_plus [OF step] plusResult_def del: foldl_Cons)
qed

text \<open>The result of a category's loop, entry by entry.\<close>

lemma compareColors_sums:
  "total_count (compareColors d c tol) = length d"
  "matching (compareColors d c tol) = sum_list (map (\<lambda>e. matching (compareColorStep c tol zeroResult e)) d)"
  "mismatched (compareColors d c tol) = sum_list (map (\<lambda>e. mismatched (compareColorStep c tol zeroResult e)) d)"
  "missing (compareColors d c tol) = sum_list (map (\<lambda>e. missing (compareColorStep c tol zeroResult e)) d)"
  "found (compareColors d c tol) = concat (map (\<lambda>e. found (compareColorStep c tol zeroResult e)) d)"
proof -
  have eq: "compareColors d c tol =
      plusResult \<lparr> total_count = length d, matching = 0, mismatched = 0, missing = 0, found = [] \<rparr>
        (foldl (compareColorStep c tol) zeroResult d)"
    unfolding compareColors_def by (rule foldl_plus) (rule colorStep_plus)
  have t0: "total_count (foldl (compareColorStep c tol) zeroResult es) = 0" for es
  proof (induction es)
    case Nil show ?case by (simp add: zeroResult_def)
  next
    case (Cons e es)
    have "total_count (compareColorStep c tol zeroResult e) = 0"
      by (simp add: compareColorStep_def zeroResult_def Let_def split: option.splits)
    with Cons show ?case
      by (simp add: foldl_Cons_plus [OF colorStep_plus] plusResult_def del: foldl_Cons)
  qed
  show "total_count (compareColors d c tol) = length d" by (simp add: eq plusResult_def t0)
  show "matching (compareColors d c tol) = sum_list (map (\<lambda>e. matching (compareColorStep c tol zeroResult e)) d)"
    by (simp add: eq plusResult_def foldl_matching [OF colorStep_plus])
  show "mismatched (compareColors d c tol) = sum_list (map (\<lambda>e. mismatched (compareColorStep c tol zeroResult e)) d)"
    by (simp add: eq plusResult_def foldl_mismatched [OF colorStep_plus])
  show "missing (compareColors d c tol) = sum_list (map (\<lambda>e. missing (compareColorStep c tol zeroResult e)) d)"
    by (simp add: eq plusResult_def foldl_missing [OF colorStep_plus])
  show "found (compareColors d c tol) = concat (map (\<lambda>e. found (compareColorStep c tol zeroResult e)) d)"
    by (simp add: eq plusResult_def foldl_found [OF colorStep_plus])
qed

lemma compareSpacing_sums:
  "total_count (compareSpacing d c tol ty) = length d"
  "matching (compareSpacing d c tol ty) = sum_list (map (\<lambda>e. matching (compareSpacingStep c tol ty zeroResult e)) d)"
  "mismatched (compareSpacing d c tol ty) = sum_list (map (\<lambda>e. mismatched (compareSpacingStep c tol ty zeroResult e)) d)"
  "missing (compareSpacing d c tol ty) = sum_list (map (\<lambda>e. missing (compareSpacingStep c tol ty zeroResult e)) d)"
  "found (compareSpacing d c tol ty) = concat (map (\<lambda>e. found (compareSpacingStep c tol ty zeroResult e)) d)"
proof -
  have eq: "compareSpacing d c tol ty =
      plusResult \<lparr> total_count = length d, matching = 0, mismatched = 0, missing = 0, found = [] \<rparr>
        (foldl (compareSpacingStep c tol ty) zeroResult d)"
    unfolding compareSpacing_def by (rule foldl_plus) (rule spacingStep_plus)
  have t0: "total_count (foldl (compareSpacingStep c tol ty) zeroResult es) = 0" for es
  proof (induction es)
    case Nil show ?case by (simp add: zeroResult_def)
  next
    case (Cons e es)
    have "total_count (compareSpacingStep c tol ty zeroResult e) = 0"
      by (simp add: compareSpacingStep_def zeroResult_def Let_def split: option.splits)
    with Cons show ?case
      by (simp add: foldl_Cons_plus [OF spacingStep_plus] plusResult_def del: foldl_Cons)
  qed
  show "total_count (compareSpacing d c tol ty) = length d" by (simp add: eq plusResult_def t0)
  show "matching (compareSpacing d c tol ty) = sum_list (map (\<lambda>e. matching (compareSpacingStep c tol ty zeroResult e)) d)"
    by (simp add: eq plusResult_def foldl_matching [OF spacingStep_plus])
  show "mismatched (compareSpacing d c tol ty) = sum_list (map (\<lambda>e. mismatched (compareSpacingStep c tol ty zeroResult e)) d)"
    by (simp add: eq plusResult_def foldl_mismatched [OF spacingStep_plus])
  show "missing (compareSpacing d c tol ty) = sum_list (map (\<lambda>e. missing (compareSpacingStep c tol ty zeroResult e)) d)"
    by (simp add: eq plusResult_def foldl_missing [OF spacingStep_plus])
  show "found (compareSpacing d c tol ty) = concat (map (\<lambda>e. found (compareSpacingStep c tol ty zeroResult e)) d)"
    by (simp add: eq plusResult_def foldl_found [OF spacingStep_plus])
qed

lemma colorStep_names:
  "x \<in> set (found (compareColorStep c tol zeroResult e)) \<Longrightarrow> tokenName x = fst e"
  by (auto simp: compareColorStep_def zeroResult_def notFound_def Let_def
      split: option.splits if_splits)

lemma spacingStep_names:
  "x \<in> set (found (compareSpacingStep c tol ty zeroResult e)) \<Longrightarrow> tokenName x = fst e"
  by (auto simp: compareSpacingStep_def zeroResult_def notFound_def Let_def
      split: option.splits if_splits)

lemma compareColors_names: "tokenName ` set (found (compareColors d c tol)) \<subseteq> fst ` set d"
  by (auto simp: compareColors_sums dest!: colorStep_names)

lemma compareSpacing_names: "tokenName ` set (found (compareSpacing d c tol ty)) \<subseteq> fst ` set d"
  by (auto simp: compareSpacing_sums dest!: spacingStep_names)

lemma discrepancies_compare:
  "discrepancies (compareDesignTokens d c opts) =
     found (compareColors (colors d) (colors c) (optionValue (colorTolerance (mergeOptions DEFAULT_OPTIONS opts)) 5)) @
     found (compareSpacing (spacing d) (spacing c) (optionValue (spacingTolerance (mergeOptions DEFAULT_OPTIONS opts)) 2) SpacingType) @
     (case borderRadius d of
        None \<Rightarrow> []
      | Some r \<Rightarrow> found (compareSpacing r (extractedRadius c)
          (optionValue (spacingTolerance (mergeOptions DEFAULT_OPTIONS opts)) 2) BorderRadiusType))"
  by (simp add: compareDesignTokens_def Let_def extractedRadius_def split: option.splits)

lemma mergeOptions_checkExtraTokens:
  "colorTolerance (mergeOptions a (opts\<lparr> checkExtraTokens := b \<rparr>)) = colorTolerance (mergeOptions a opts)"
  "spacingTolerance (mergeOptions a (opts\<lparr> checkExtraTokens := b \<rparr>)) = spacingTolerance (mergeOptions a opts)"
  "minMatchPercentage (mergeOptions a (opts\<lparr> checkExtraTokens := b \<rparr>)) = minMatchPercentage (mergeOptions a opts)"
  by (simp_all add: mergeOptions_def)

text \<open>
  Claim C10. Whatever the token sets and the options, the result of \<open>compareDesignTokens\<close>
  has \<open>extraInCSSCount\<close> equal to 0, setting \<open>checkExtraTokens\<close> to any value leaves the
  whole result unchanged, and every discrepancy reported carries the name of an expected
  token: a token present only in the extracted set is never reported.
\<close>

theorem checkExtraTokens_has_no_effect:
  "extraInCSSCount (compareDesignTokens d c opts) = 0 \<and>
   compareDesignTokens d c (opts\<lparr> checkExtraTokens := b \<rparr>) = compareDesignTokens d c opts \<and>
   tokenName ` set (discrepancies (compareDesignTokens d c opts)) \<subseteq> expectedNames d"
proof (intro conjI)
  show "extraInCSSCount (compareDesignTokens d c opts) = 0"
    by (simp add: compareDesignTokens_def Let_def)
  show "compareDesignTokens d c (opts\<lparr> checkExtraTokens := b \<rparr>) = compareDesignTokens d c opts"
    by (simp only: compareDesignTokens_def Let_def mergeOptions_checkExtraTokens)
  show "tokenName ` set (discrepancies (compareDesignTokens d c opts)) \<subseteq> expectedNames d"
    unfolding discrepancies_compare expectedNames_def
    using compareColors_names compareSpacing_names
    by (auto simp: image_Un split: option.splits) blast+
qed

lemma find_as_filter: "find P xs = (case filter P xs of [] \<Rightarrow> None | x # _ \<Rightarrow> Some x)"
  by (induction xs) auto

lemma findMatchingToken_candidates:
  "findMatchingToken name tokens =
     (case matchCandidates name tokens of [] \<Rightarrow> None | v # _ \<Rightarrow> Some v)"
  by (auto simp: findMatchingToken_def matchCandidates_def Let_def find_as_filter
      split: option.splits list.splits)

lemma sum_list_perm:
  fixes h :: "'a \<Rightarrow> 'b::comm_monoid_add"
  assumes "mset xs = mset ys"
  shows "sum_list (map h xs) = sum_list (map h ys)"
proof -
  have "sum_list (map h xs) = sum_mset (image_mset h (mset xs))"
    by (metis mset_map sum_mset_sum_list)
  also have "\<dots> = sum_mset (image_mset h (mset ys))" by (simp add: assms)
  also have "\<dots> = sum_list (map h ys)" by (metis mset_map sum_mset_sum_list)
  finally show ?thesis .
qed

lemma mset_concat_perm:
  assumes "mset xs = mset ys"
  shows "mset (concat (map k xs)) = mset (concat (map k ys))"
proof -
  have "mset (concat (map k zs)) = sum_list (map (\<lambda>z. mset (k z)) zs)" for zs
    by (induction zs) simp_all
  then show ?thesis using sum_list_perm [OF assms, of "\<lambda>z. mset (k z)"] by simp
qed

lemma map_of_perm:
  assumes "mset t1 = mset t2" and "distinct (map fst t1)"
  shows "map_of t1 = map_of t2"
proof -
  have "mset (map fst t1) = mset (map fst t2)" using assms(1) by (metis mset_map)
  then have "distinct (map fst t2)" using assms(2) by (metis mset_eq_imp_distinct_iff)
  moreover have "set t1 = set t2" using assms(1) by (rule mset_eq_setD)
  ultimately show ?thesis using assms(2) by (simp add: map_of_inject_set)
qed

lemma filter_values_perm:
  assumes "mset t1 = mset t2"
  shows "set (map snd (filter P t1)) = set (map snd (filter P t2))"
    and "(filter P t1 = []) = (filter P t2 = [])"
proof -
  have m: "mset (filter P t1) = mset (filter P t2)" using assms by (metis mset_filter)
  then have "set (filter P t1) = set (filter P t2)" by (rule mset_eq_setD)
  then show "set (map snd (filter P t1)) = set (map snd (filter P t2))" by simp
  from m show "(filter P t1 = []) = (filter P t2 = [])" by (metis mset_zero_iff)
qed

lemma matchCandidates_perm:
  assumes "mset t1 = mset t2" and "distinct (map fst t1)"
  shows "set (matchCandidates name t1) = set (matchCandidates name t2)"
  unfolding matchCandidates_def Let_def map_of_perm [OF assms]
  using filter_values_perm [OF assms(1)]
  by (simp split: option.splits)

lemma unambiguous_first:
  assumes "unambiguous name t1" and "set (matchCandidates name t1) = set (matchCandidates name t2)"
  shows "findMatchingToken name t1 = findMatchingToken name t2"
proof (cases "matchCandidates name t1")
  case Nil
  with assms(2) have "matchCandidates name t2 = []" by simp
  with Nil show ?thesis by (simp add: findMatchingToken_candidates)
next
  case (Cons v vs)
  with assms(1) have all: "\<forall>w\<in>set (matchCandidates name t1). w = v"
    by (simp add: unambiguous_def list_all_iff)
  from Cons assms(2) obtain w ws where c2: "matchCandidates name t2 = w # ws"
    by (cases "matchCandidates name t2") auto
  then have "w \<in> set (matchCandidates name t1)" using assms(2) by simp
  with all have "w = v" by simp
  with Cons c2 show ?thesis by (simp add: findMatchingToken_candidates)
qed

lemma findMatchingToken_perm:
  assumes "mset t1 = mset t2" and "distinct (map fst t1)" and "unambiguous name t1"
  shows "findMatchingToken name t1 = findMatchingToken name t2"
  by (rule unambiguous_first [OF assms(3) matchCandidates_perm [OF assms(1,2)]])

lemma colorStep_cong:
  "findMatchingToken (fst e) c1 = findMatchingToken (fst e) c2 \<Longrightarrow>
     compareColorStep c1 tol acc e = compareColorStep c2 tol acc e"
  by (simp add: compareColorStep_def Let_def)

lemma spacingStep_cong:
  "findMatchingToken (fst e) c1 = findMatchingToken (fst e) c2 \<Longrightarrow>
     compareSpacingStep c1 tol ty acc e = compareSpacingStep c2 tol ty acc e"
  by (simp add: compareSpacingStep_def Let_def)

lemma compareColors_perm:
  assumes d: "sameEntries d1 d2" and c: "sameEntries c1 c2"
    and once: "distinct (map fst c1)" and un: "unambiguousFor d1 c1"
  shows "total_count (compareColors d1 c1 tol) = total_count (compareColors d2 c2 tol)"
    and "matching (compareColors d1 c1 tol) = matching (compareColors d2 c2 tol)"
    and "mismatched (compareColors d1 c1 tol) = mismatched (compareColors d2 c2 tol)"
    and "missing (compareColors d1 c1 tol) = missing (compareColors d2 c2 tol)"
    and "mset (found (compareColors d1 c1 tol)) = mset (found (compareColors d2 c2 tol))"
proof -
  from d have md: "mset d1 = mset d2" by (simp add: sameEntries_def)
  from c have mc: "mset c1 = mset c2" by (simp add: sameEntries_def)
  have step: "compareColorStep c2 tol zeroResult e = compareColorStep c1 tol zeroResult e"
    if "e \<in> set d2" for e
  proof -
    from that md have "e \<in> set d1" by (metis mset_eq_setD)
    with un have "unambiguous (fst e) c1" by (simp add: unambiguousFor_def list_all_iff)
    from findMatchingToken_perm [OF mc once this] show ?thesis
      by (intro colorStep_cong) simp
  qed
  have swap: "map (\<lambda>e. g (compareColorStep c2 tol zeroResult e)) d2 =
              map (\<lambda>e. g (compareColorStep c1 tol zeroResult e)) d2" for g :: "TokenComparisonResult \<Rightarrow> 'x"
    by (rule map_cong [OF refl]) (simp add: step)
  show "total_count (compareColors d1 c1 tol) = total_count (compareColors d2 c2 tol)"
    using md by (simp add: compareColors_sums) (metis size_mset)
  show "matching (compareColors d1 c1 tol) = matching (compareColors d2 c2 tol)"
    unfolding compareColors_sums swap by (rule sum_list_perm [OF md])
  show "mismatched (compareColors d1 c1 tol) = mismatched (compareColors d2 c2 tol)"
    unfolding compareColors_sums swap by (rule sum_list_perm [OF md])
  show "missing (compareColors d1 c1 tol) = missing (compareColors d2 c2 tol)"
    unfolding compareColors_sums swap by (rule sum_list_perm [OF md])
  show "mset (found (compareColors d1 c1 tol)) = mset (found (compareColors d2 c2 tol))"
    unfolding compareColors_sums swap by (rule mset_concat_perm [OF md])
qed

lemma compareSpacing_perm:
  assumes d: "sameEntries d1 d2" and c: "sameEntries c1 c2"
    and once: "distinct (map fst c1)" and un: "unambiguousFor d1 c1"
  shows "total_count (compareSpacing d1 c1 tol ty) = total_count (compareSpacing d2 c2 tol ty)"
    and "matching (compareSpacing d1 c1 tol ty) = matching (compareSpacing d2 c2 tol ty)"
    and "mismatched (compareSpacing d1 c1 tol ty) = mismatched (compareSpacing d2 c2 tol ty)"
    and "missing (compareSpacing d1 c1 tol ty) = missing (compareSpacing d2 c2 tol ty)"
    and "mset (found (compareSpacing d1 c1 tol ty)) = mset (found (compareSpacing d2 c2 tol ty))"
proof -
  from d have md: "mset d1 = mset d2" by (simp add: sameEntries_def)
  from c have mc: "mset c1 = mset c2" by (simp add: sameEntries_def)
  have step: "compareSpacingStep c2 tol ty zeroResult e = compareSpacingStep c1 tol ty zeroResult e"
    if "e \<in> set d2" for e
  proof -
    from that md have "e \<in> set d1" by (metis mset_eq_setD)
    with un have "unambiguous (fst e) c1" by (simp add: unambiguousFor_def list_all_iff)
    from findMatchingToken_perm [OF mc once this] show ?thesis
      by (intro spacingStep_cong) simp
  qed
  have swap: "map (\<lambda>e. g (compareSpacingStep c2 tol ty zeroResult e)) d2 =
              map (\<lambda>e. g (compareSpacingStep c1 tol ty zeroResult e)) d2" for g :: "TokenComparisonResult \<Rightarrow> 'x"
    by (rule map_cong [OF refl]) (simp add: step)
  show "total_count (compareSpacing d1 c1 tol ty) = total_count (compareSpacing d2 c2 tol ty)"
    using md by (simp add: compareSpacing_sums) (metis size_mset)
  show "matching (compareSpacing d1 c1 tol ty) = matching (compareSpacing d2 c2 tol ty)"
    unfolding compareSpacing_sums swap by (rule sum_list_perm [OF md])
  show "mismatched (compareSpacing d1 c1 tol ty) = mismatched (compareSpacing d2 c2 tol ty)"
    unfolding compareSpacing_sums swap by (rule sum_list_perm [OF md])
  show "missing (compareSpacing d1 c1 tol ty) = missing (compareSpacing d2 c2 tol ty)"
    unfolding compareSpacing_sums swap by (rule sum_list_perm [OF md])
  show "mset (found (compareSpacing d1 c1 tol ty)) = mset (found (compareSpacing d2 c2 tol ty))"
    unfolding compareSpacing_sums swap by (rule mset_concat_perm [OF md])
qed

lemma compare_fields:
  "totalChecked (compareDesignTokens d c opts) =
     total_count (colorPart d c opts) + total_count (spacingPart d c opts) + total_count (radiusPart d c opts)"
  "matchingCount (compareDesignTokens d c opts) =
     matching (colorPart d c opts) + matching (spacingPart d c opts) + matching (radiusPart d c opts)"
  "mismatchedCount (compareDesignTokens d c opts) =
     mismatched (colorPart d c opts) + mismatched (spacingPart d c opts) + mismatched (radiusPart d c opts)"
  "missingInCSSCount (compareDesignTokens d c opts) =
     missing (colorPart d c opts) + missing (spacingPart d c opts) + missing (radiusPart d c opts)"
  "discrepancies (compareDesignTokens d c opts) =
     found (colorPart d c opts) @ found (spacingPart d c opts) @ found (radiusPart d c opts)"
  by (simp_all add: compareDesignTokens_def Let_def colorPart_def spacingPart_def radiusPart_def
      extractedRadius_def zeroResult_def split: option.splits)

lemma compare_percentage:
  "matchPercentage (compareDesignTokens d c opts) =
     (if totalChecked (compareDesignTokens d c opts) > 0
      then mathRound ((real (matchingCount (compareDesignTokens d c opts)) /
                       real (totalChecked (compareDesignTokens d c opts))) * 100)
      else 100)"
  by (simp add: compareDesignTokens_def Let_def)

lemma compare_verified:
  "verified (compareDesignTokens d c opts) =
     (real_of_int (matchPercentage (compareDesignTokens d c opts)) \<ge>
        (let minimum = optionValue (minMatchPercentage (mergeOptions DEFAULT_OPTIONS opts)) 90
         in if minimum = 0 then 90 else minimum))"
  by (simp add: compareDesignTokens_def Let_def)

lemma radiusPart_perm:
  assumes "sameTokens d1 d2" and "sameTokens c1 c2" and "keysOnce c1" and "unambiguousTokens d1 c1"
  shows "total_count (radiusPart d1 c1 opts) = total_count (radiusPart d2 c2 opts) \<and>
         matching (radiusPart d1 c1 opts) = matching (radiusPart d2 c2 opts) \<and>
         mismatched (radiusPart d1 c1 opts) = mismatched (radiusPart d2 c2 opts) \<and>
         missing (radiusPart d1 c1 opts) = missing (radiusPart d2 c2 opts) \<and>
         mset (found (radiusPart d1 c1 opts)) = mset (found (radiusPart d2 c2 opts))"
proof (cases "borderRadius d1")
  case None
  with assms(1) have "borderRadius d2 = None"
    by (cases "borderRadius d2") (simp_all add: sameTokens_def)
  with None show ?thesis by (simp add: radiusPart_def)
next
  case (Some r1)
  with assms(1) obtain r2 where r2: "borderRadius d2 = Some r2" and d: "sameEntries r1 r2"
    by (cases "borderRadius d2") (simp_all add: sameTokens_def)
  have c: "sameEntries (extractedRadius c1) (extractedRadius c2)"
    using assms(2) by (auto simp: sameTokens_def extractedRadius_def sameEntries_def split: option.splits)
  have once: "distinct (map fst (extractedRadius c1))"
    using assms(3) by (auto simp: keysOnce_def extractedRadius_def split: option.splits)
  from Some assms(4) have un: "unambiguousFor r1 (extractedRadius c1)"
    by (simp add: unambiguousTokens_def)
  note p = compareSpacing_perm [OF d c once un]
  show ?thesis by (simp add: radiusPart_def Some r2 p)
qed

text \<open>
  Claim C4, as amended. Let two calls receive expected sets with the same key-value pairs
  and extracted sets with the same key-value pairs, in whatever order, each extracted key
  occurring once. If every expected name is matched unambiguously in the extracted set (all
  the extracted tokens that match it at the first matching stage that succeeds carry one
  value; an exact-name match always is), the two results have the same match percentage,
  the same counts and verdict, and the same discrepancies up to order.
\<close>

theorem comparison_independent_of_order:
  assumes "sameTokens d1 d2" and "sameTokens c1 c2" and "keysOnce c1" and "unambiguousTokens d1 c1"
  shows "matchPercentage (compareDesignTokens d1 c1 opts) = matchPercentage (compareDesignTokens d2 c2 opts) \<and>
         mset (discrepancies (compareDesignTokens d1 c1 opts)) = mset (discrepancies (compareDesignTokens d2 c2 opts)) \<and>
         verified (compareDesignTokens d1 c1 opts) = verified (compareDesignTokens d2 c2 opts) \<and>
         totalChecked (compareDesignTokens d1 c1 opts) = totalChecked (compareDesignTokens d2 c2 opts) \<and>
         matchingCount (compareDesignTokens d1 c1 opts) = matchingCount (compareDesignTokens d2 c2 opts) \<and>
         mismatchedCount (compareDesignTokens d1 c1 opts) = mismatchedCount (compareDesignTokens d2 c2 opts) \<and>
         missingInCSSCount (compareDesignTokens d1 c1 opts) = missingInCSSCount (compareDesignTokens d2 c2 opts)"
proof -
  have cd: "sameEntries (colors d1) (colors d2)" and sd: "sameEntries (spacing d1) (spacing d2)"
    using assms(1) by (simp_all add: sameTokens_def)
  have cc: "sameEntries (colors c1) (colors c2)" and sc: "sameEntries (spacing c1) (spacing c2)"
    using assms(2) by (simp_all add: sameTokens_def)
  have oc: "distinct (map fst (colors c1))" and os: "distinct (map fst (spacing c1))"
    using assms(3) by (simp_all add: keysOnce_def)
  have uc: "unambiguousFor (colors d1) (colors c1)" and us: "unambiguousFor (spacing d1) (spacing c1)"
    using assms(4) by (simp_all add: unambiguousTokens_def)
  note pc = compareColors_perm [OF cd cc oc uc]
  note ps = compareSpacing_perm [OF sd sc os us]
  from radiusPart_perm [OF assms, of opts]
  have pr: "total_count (radiusPart d1 c1 opts) = total_count (radiusPart d2 c2 opts)"
    "matching (radiusPart d1 c1 opts) = matching (radiusPart d2 c2 opts)"
    "mismatched (radiusPart d1 c1 opts) = mismatched (radiusPart d2 c2 opts)"
    "missing (radiusPart d1 c1 opts) = missing (radiusPart d2 c2 opts)"
    "mset (found (radiusPart d1 c1 opts)) = mset (found (radiusPart d2 c2 opts))"
    by simp_all
  have t: "totalChecked (compareDesignTokens d1 c1 opts) = totalChecked (compareDesignTokens d2 c2 opts)"
    by (simp add: compare_fields colorPart_def spacingPart_def pc(1) ps(1) pr(1))
  have m: "matchingCount (compareDesignTokens d1 c1 opts) = matchingCount (compareDesignTokens d2 c2 opts)"
    by (simp add: compare_fields colorPart_def spacingPart_def pc(2) ps(2) pr(2))
  have mm: "mismatchedCount (compareDesignTokens d1 c1 opts) = mismatchedCount (compareDesignTokens d2 c2 opts)"
    by (simp add: compare_fields colorPart_def spacingPart_def pc(3) ps(3) pr(3))
  have mi: "missingInCSSCount (compareDesignTokens d1 c1 opts) = missingInCSSCount (compareDesignTokens d2 c2 opts)"
    by (simp add: compare_fields colorPart_def spacingPart_def pc(4) ps(4) pr(4))
  have ds: "mset (discrepancies (compareDesignTokens d1 c1 opts)) = mset (discrepancies (compareDesignTokens d2 c2 opts))"
    by (simp add: compare_fields colorPart_def spacingPart_def pc(5) ps(5) pr(5))
  have p: "matchPercentage (compareDesignTokens d1 c1 opts) = matchPercentage (compareDesignTokens d2 c2 opts)"
    by (simp only: compare_percentage t m)
  have v: "verified (compareDesignTokens d1 c1 opts) = verified (compareDesignTokens d2 c2 opts)"
    by (simp only: compare_verified p)
  from p ds v t m mm mi show ?thesis by simp
qed

lemma eval_find:
  "findMatchingToken ''sm'' [(''SM'', ''4px''), (''Sm'', ''40px'')] = Some ''4px''"
  "findMatchingToken ''sm'' [(''Sm'', ''40px''), (''SM'', ''4px'')] = Some ''40px''"
  "findMatchingToken ''sm'' [(''sm'', ''4px''), (''LG'', ''16px'')] = Some ''4px''"
  "findMatchingToken ''lg'' [(''sm'', ''4px''), (''LG'', ''16px'')] = Some ''16px''"
  "findMatchingToken ''sm'' [(''LG'', ''16px''), (''sm'', ''4px'')] = Some ''4px''"
  "findMatchingToken ''lg'' [(''LG'', ''16px''), (''sm'', ''4px'')] = Some ''16px''"
  "findMatchingToken ''primary'' [(''primary'', ''#FFFFFF''), (''extra'', ''#000000'')] = Some ''#FFFFFF''"
  "findMatchingToken ''primary'' [(''extra'', ''#000000''), (''primary'', ''#FFFFFF'')] = Some ''#FFFFFF''"
  "findMatchingToken ''card'' [(''card'', ''8px'')] = Some ''8px''"
  "findMatchingToken ''primary'' [(''primary'', [])] = Some []"
  "findMatchingToken ''gap'' [(''gap'', ''.'')] = Some ''.''"
  by code_simp+

lemma eval_spacing:
  "parseSpacingValue ''4px'' = Some (Num 4)"
  "parseSpacingValue ''40px'' = Some (Num 40)"
  "parseSpacingValue ''16px'' = Some (Num 16)"
  "parseSpacingValue ''20px'' = Some (Num 20)"
  "parseSpacingValue ''8px'' = Some (Num 8)"
  "parseSpacingValue ''0.5rem'' = Some (Num 8)"
  "parseSpacingValue ''.'' = Some NaN"
  by code_simp+

lemma eval_color:
  "normalizeColorValue ''#fff'' = ''#FFFFFF''"
  "normalizeColorValue ''#FFFFFF'' = ''#FFFFFF''"
  by code_simp+

lemmas eval_defs =
  compareDesignTokens_def compareColors_def compareSpacing_def compareColorStep_def
  compareSpacingStep_def mergeOptions_def DEFAULT_OPTIONS_def noOptions_def orElse_def
  optionValue_def mathRound_def absDiff_def numAtMost_def numAbove_def notFound_def Let_def

lemma orderA:
  "matchPercentage (compareDesignTokens orderTokens orderCssA noOptions) = 100"
  "discrepancies (compareDesignTokens orderTokens orderCssA noOptions) = []"
  by (simp_all add: orderTokens_def orderCssA_def eval_defs eval_find eval_spacing)

lemma orderB:
  "matchPercentage (compareDesignTokens orderTokens orderCssB noOptions) = 0"
  "discrepancies (compareDesignTokens orderTokens orderCssB noOptions) =
     [\<lparr> dtype = SpacingType, tokenName = ''sm'', expectedValue = ''4px'', actualValue = ''40px'',
        difference = SpacingDifference (Num 36), severity = Error \<rparr>]"
  by (simp_all add: orderTokens_def orderCssB_def eval_defs eval_find eval_spacing)

text \<open>
  Claim C4 as stated fails: the expected token \<open>sm\<close> has no exact match, the extracted keys
  \<open>SM\<close> and \<open>Sm\<close> both match it up to case, and the one met first wins. The same pairs in
  the two orders give 100 percent with no discrepancy, and 0 percent with an error.
\<close>

theorem comparison_depends_on_order:
  "sameTokens orderCssA orderCssB \<and> keysOnce orderCssA \<and> keysOnce orderCssB \<and>
   matchPercentage (compareDesignTokens orderTokens orderCssA noOptions) = 100 \<and>
   matchPercentage (compareDesignTokens orderTokens orderCssB noOptions) = 0 \<and>
   discrepancies (compareDesignTokens orderTokens orderCssA noOptions) = [] \<and>
   discrepancies (compareDesignTokens orderTokens orderCssB noOptions) =
     [\<lparr> dtype = SpacingType, tokenName = ''sm'', expectedValue = ''4px'', actualValue = ''40px'',
        difference = SpacingDifference (Num 36), severity = Error \<rparr>]"
proof -
  have "sameTokens orderCssA orderCssB"
    by (simp add: sameTokens_def sameEntries_def orderCssA_def orderCssB_def)
  moreover have "keysOnce orderCssA" "keysOnce orderCssB"
    by (simp_all add: keysOnce_def orderCssA_def orderCssB_def)
  ultimately show ?thesis using orderA orderB by simp
qed

lemma sample_hyps:
  "sameTokens sampleDesign sampleDesignReordered"
  "sameTokens sampleCss sampleCssReordered"
  "keysOnce sampleCss"
  by (simp_all add: sameTokens_def sameEntries_def keysOnce_def sampleDesign_def
      sampleDesignReordered_def sampleCss_def sampleCssReordered_def)

lemma sample_unambiguous: "unambiguousTokens sampleDesign sampleCss"
  by code_simp

lemma sample_eval:
  "matchPercentage (compareDesignTokens sampleDesign sampleCss noOptions) = 75"
  by (simp add: sampleDesign_def sampleCss_def eval_defs eval_find eval_spacing eval_color)

theorem comparison_independent_of_order_witness:
  "sameTokens sampleDesign sampleDesignReordered \<and> sameTokens sampleCss sampleCssReordered \<and>
   keysOnce sampleCss \<and> unambiguousTokens sampleDesign sampleCss \<and>
   matchPercentage (compareDesignTokens sampleDesign sampleCss noOptions) = 75 \<and>
   matchPercentage (compareDesignTokens sampleDesignReordered sampleCssReordered noOptions) = 75"
  using comparison_independent_of_order [OF sample_hyps sample_unambiguous, of noOptions]
    sample_hyps sample_unambiguous sample_eval
  by simp

theorem checkExtraTokens_has_no_effect_witness:
  "extraInCSSCount (compareDesignTokens sampleDesign sampleCss (noOptions\<lparr> checkExtraTokens := Some True \<rparr>)) = 0 \<and>
   matchPercentage (compareDesignTokens sampleDesign sampleCss (noOptions\<lparr> checkExtraTokens := Some True \<rparr>)) = 75 \<and>
   ''extra'' \<notin> tokenName ` set (discrepancies (compareDesignTokens sampleDesign sampleCss
       (noOptions\<lparr> checkExtraTokens := Some True \<rparr>)))"
proof -
  note t = checkExtraTokens_has_no_effect [of sampleDesign sampleCss noOptions "Some True"]
  have "''extra'' \<notin> expectedNames sampleDesign"
    by (simp add: expectedNames_def sampleDesign_def)
  with t sample_eval show ?thesis by auto
qed








lemma mathRound_hundred: "mathRound 100 = 100"
  by (simp add: mathRound_def)

lemma mathRound_full: "0 < n \<Longrightarrow> mathRound ((real n / real n) * 100) = 100"
  by (simp add: mathRound_hundred)





section \<open>Properties of colour normalisation\<close>



































section \<open>Rules for actions\<close>

text \<open>What an action keeps, it keeps through sequencing, \<open>catch\<close> and \<open>finally\<close>.\<close>

lemma keeps_return: "keeps I (returnA x)"
  by (simp add: keeps_def returnA_def)

lemma keeps_bind: "keeps I m \<Longrightarrow> (\<And>a. keeps I (f a)) \<Longrightarrow> keeps I (bindA m f)"
  unfolding keeps_def bindA_def
  by (auto split: prod.splits sum.splits)

lemma keeps_catch: "keeps I m \<Longrightarrow> (\<And>e. keeps I (h e)) \<Longrightarrow> keeps I (catchA m h)"
  unfolding keeps_def catchA_def
  by (auto split: prod.splits sum.splits)

lemma keeps_finally: "keeps I m \<Longrightarrow> keeps I c \<Longrightarrow> keeps I (finallyA m c)"
  unfolding keeps_def finallyA_def
  by (auto split: prod.splits sum.splits)

lemma keeps_if: "keeps I a \<Longrightarrow> keeps I b \<Longrightarrow> keeps I (if c then a else b)"
  by simp

lemma keeps_option: "keeps I a \<Longrightarrow> (\<And>x. keeps I (b x)) \<Longrightarrow> keeps I (case opt of None \<Rightarrow> a | Some x \<Rightarrow> b x)"
  by (cases opt) simp_all

lemma keeps_sum: "(\<And>x. keeps I (a x)) \<Longrightarrow> (\<And>x. keeps I (b x)) \<Longrightarrow> keeps I (case s of Inl x \<Rightarrow> a x | Inr x \<Rightarrow> b x)"
  by (cases s) simp_all

lemma keeps_let: "keeps I (f x) \<Longrightarrow> keeps I (let y = x in f y)"
  by simp

lemmas keeps_rules =
  keeps_return keeps_bind keeps_catch keeps_finally keeps_if keeps_option keeps_sum keeps_let



text \<open>Everything but the review step leaves the number of review invocations alone.\<close>

lemma keeps_reviewCount_prims:
  "keeps (\<lambda>w. reviewCount w = n) (clearMessages t)"
  "keeps (\<lambda>w. reviewCount w = n) (readMessages t)"
  "keeps (\<lambda>w. reviewCount w = n) (updateAgentStatus k s c)"
  "keeps (\<lambda>w. reviewCount w = n) (saveDesignTokens d)"
  "keeps (\<lambda>w. reviewCount w = n) (writeVerificationReport r)"
  "keeps (\<lambda>w. reviewCount w = n) (saveQueue q)"
  "keeps (\<lambda>w. reviewCount w = n) (storeSetCurrentTask c)"
  "keeps (\<lambda>w. reviewCount w = n) (storeUpdateTaskStatus i st)"
  "keeps (\<lambda>w. reviewCount w = n) (storeCompleteTask i)"
  "keeps (\<lambda>w. reviewCount w = n) (storeRejectTask i r')"
  "a \<noteq> ReviewAgent \<Longrightarrow> keeps (\<lambda>w. reviewCount w = n) (invokeAgent env a p)"
  by (auto simp: keeps_def reviewCount_def clearMessages_def readMessages_def updateAgentStatus_def
      saveDesignTokens_def writeVerificationReport_def invokeAgent_def saveQueue_def
      storeSetCurrentTask_def storeUpdateTaskStatus_def storeCompleteTask_def storeRejectTask_def
      split: option.splits prod.splits sum.splits)

lemma keeps_reviewCount_agents:
  "keeps (\<lambda>w. reviewCount w = n) (runPlanner env task)"
  "keeps (\<lambda>w. reviewCount w = n) (runDesigner env task doc)"
  "keeps (\<lambda>w. reviewCount w = n) (runTechLead env task doc spec)"
  "keeps (\<lambda>w. reviewCount w = n) (runDeveloper env task)"
  unfolding runPlanner_def runDesigner_def runTechLead_def runDeveloper_def
  by (intro keeps_rules keeps_reviewCount_prims; simp)+

lemma keeps_reviewCount_implementation:
  "keeps (\<lambda>w. reviewCount w = n) (implementationPhases env task)"
  unfolding implementationPhases_def
  by (intro keeps_rules keeps_reviewCount_prims keeps_reviewCount_agents)

text \<open>What holds when an action returns.\<close>

lemma returns_early: "returns P (returnA (Inl x)) (handedOver i)"
  by (simp add: returns_def returnA_def handedOver_def)

lemma returns_skip: "(\<And>a. returns (\<lambda>w. True) (f a) Q) \<Longrightarrow> returns P (bindA m f) Q"
  unfolding returns_def bindA_def
  by (auto split: prod.splits sum.splits) (metis (mono_tags, lifting) case_prod_conv old.sum.simps(6))

lemma returns_if: "returns P a Q \<Longrightarrow> returns P b Q \<Longrightarrow> returns P (if c then a else b) Q"
  by simp

lemma returns_option:
  "returns P a Q \<Longrightarrow> (\<And>x. returns P (b x) Q) \<Longrightarrow> returns P (case opt of None \<Rightarrow> a | Some x \<Rightarrow> b x) Q"
  by (cases opt) simp_all

lemma find_update_first:
  "findIndex P xs = Some k \<Longrightarrow> P y \<Longrightarrow> find P (xs[k := y]) = Some y"
proof (induction xs arbitrary: k)
  case Nil
  then show ?case by simp
next
  case (Cons x xs)
  then show ?case by (cases k) (auto split: if_splits)
qed

lemma task_id_applyUpdates: "task_id (applyUpdates u t) = task_id t"
  by (simp add: applyUpdates_def Let_def split: option.splits)

lemma updateTask_result:
  assumes "updateTask i u q = Inr (t, q1)"
  shows "activeTask i q1 = Some t \<and> current q1 = current q \<and> completed q1 = completed q \<and>
         (\<exists>old. activeTask i q = Some old \<and> t = applyUpdates u old)"
proof -
  from assms obtain k where k: "findIndex (\<lambda>t. task_id t = i) (tasks q) = Some k"
    and t: "t = applyUpdates u (tasks q ! k)"
    and q1: "q1 = q\<lparr> tasks := (tasks q)[k := t] \<rparr>"
    by (auto simp: updateTask_def Let_def split: option.splits)
  from findIndex_Some [OF k] have kk: "k < length (tasks q)" "task_id (tasks q ! k) = i" by simp_all
  have "task_id t = i" by (simp add: t task_id_applyUpdates kk)
  from find_update_first [OF k, of t] this have a: "activeTask i q1 = Some t"
    by (simp add: activeTask_def q1)
  have "find (\<lambda>t. task_id t = i) ((tasks q)[k := tasks q ! k]) = Some (tasks q ! k)"
    by (rule find_update_first [OF k]) (simp add: kk)
  then have "activeTask i q = Some (tasks q ! k)" by (simp add: activeTask_def)
  with a t q1 show ?thesis by simp
qed

lemma updateTask_succeeds:
  "activeTask i q = Some old \<Longrightarrow> \<exists>t q1. updateTask i u q = Inr (t, q1)"
proof -
  assume "activeTask i q = Some old"
  then have "\<exists>x\<in>set (tasks q). task_id x = i"
    using find_Some_props [of "\<lambda>t. task_id t = i" "tasks q" old] by (auto simp: activeTask_def)
  then have "findIndex (\<lambda>t. task_id t = i) (tasks q) \<noteq> None" by (simp add: findIndex_None)
  then show ?thesis by (auto simp: updateTask_def Let_def)
qed

lemma status_applyUpdates:
  "newStatus u = Some s \<Longrightarrow> status (applyUpdates u t) = s"
  by (simp add: applyUpdates_def Let_def split: option.splits)

lemma returns_last:
  "returns P (bindA (storeUpdateTaskStatus i AwaitingReview) (\<lambda>u. returnA (Inr spec))) (handedOver i)"
proof -
  have "handedOver i (Inr spec) (snd (saveQueue q1 w))" if "updateTaskStatus i AwaitingReview (queue w) = Inr (t, q1)" for w t q1
  proof -
    from that have u: "updateTask i \<lparr> newStatus = Some AwaitingReview, newRejectionReason = None \<rparr> (queue w) = Inr (t, q1)"
      by (simp add: updateTaskStatus_def)
    from updateTask_result [OF u] obtain old where "activeTask i q1 = Some t"
      and "t = applyUpdates \<lparr> newStatus = Some AwaitingReview, newRejectionReason = None \<rparr> old" by blast
    then show ?thesis by (simp add: handedOver_def saveQueue_def status_applyUpdates)
  qed
  then show ?thesis
    by (auto simp: returns_def bindA_def returnA_def storeUpdateTaskStatus_def saveQueue_def
        split: prod.splits sum.splits)
qed

lemma implementation_hands_over:
  "returns (\<lambda>w. True) (implementationPhases env task) (handedOver (task_id task))"
  unfolding implementationPhases_def
  by (intro returns_last returns_early returns_skip returns_if returns_option)

lemma allCleared_updates:
  "m(ToDesigner := Some \<lparr> messages = [] \<rparr>, ToTechLead := Some \<lparr> messages = [] \<rparr>,
     ToDeveloper := Some \<lparr> messages = [] \<rparr>, ToTeamLead := Some \<lparr> messages = [] \<rparr>) = allCleared"
proof
  fix t show "(m(ToDesigner := Some \<lparr> messages = [] \<rparr>, ToTechLead := Some \<lparr> messages = [] \<rparr>,
     ToDeveloper := Some \<lparr> messages = [] \<rparr>, ToTeamLead := Some \<lparr> messages = [] \<rparr>)) t = allCleared t"
    by (cases t) (simp_all add: allCleared_def)
qed

lemma releaseAndClear_eq:
  "releaseAndClear w =
     (Inr (), w\<lparr> queue := setCurrentTask None (queue w),
                 persisted := persisted w @ [setCurrentTask None (queue w)],
                 mail := allCleared \<rparr>)"
  by (simp add: releaseAndClear_def bindA_def storeSetCurrentTask_def saveQueue_def
      clearMessages_def allCleared_updates)

lemma catch_Inr: "m w = (Inr a, w1) \<Longrightarrow> catchA m h w = (Inr a, w1)"
  by (simp add: catchA_def)

lemma keepsD: "keeps I m \<Longrightarrow> I w \<Longrightarrow> I (snd (m w))"
  by (simp add: keeps_def)

lemma returnsD: "returns P m Q \<Longrightarrow> P w \<Longrightarrow> m w = (Inr a, w1) \<Longrightarrow> Q a w1"
  by (auto simp: returns_def)

lemma runReview_build_failed:
  assumes "mail w ToTeamLead = Some file"
    and "firstSome (completionReportFor (task_id task)) (messages file) = Some report"
    and "buildStatus (buildResult report) = BuildFailed"
  shows "runReview env task w =
           (Inr \<lparr> approved = False, reason = Some ''Build verification failed'' \<rparr>, w)"
  using assms by (simp add: runReview_def bindA_def readMessages_def returnA_def)

lemma rejectTask_result:
  assumes "activeTask i q = Some old"
  shows "\<exists>t q1. rejectTask i r q = Inr (t, q1) \<and> activeTask i q1 = Some t \<and> status t = Rejected \<and>
           rejectionReason t = Some r \<and> current q1 = current q \<and> completed q1 = completed q"
proof -
  from updateTask_succeeds [OF assms] obtain t q1
    where u: "updateTask i \<lparr> newStatus = Some Rejected, newRejectionReason = Some (Some r) \<rparr> q = Inr (t, q1)"
    by blast
  from updateTask_result [OF u] obtain o2 where "activeTask i q1 = Some t"
    "current q1 = current q" "completed q1 = completed q"
    "t = applyUpdates \<lparr> newStatus = Some Rejected, newRejectionReason = Some (Some r) \<rparr> o2" by blast
  with u show ?thesis by (simp add: rejectTask_def applyUpdates_def)
qed

lemma activeTask_setCurrent: "activeTask i (setCurrentTask c q) = activeTask i q"
  by (simp add: activeTask_def setCurrentTask_def)

section \<open>Runs of the pipeline with the scripted agents\<close>

lemmas run_defs = implementationPhases_def runPlanner_def runDesigner_def runTechLead_def
  runDeveloper_def bindA_def returnA_def storeSetCurrentTask_def storeUpdateTaskStatus_def
  saveQueue_def updateAgentStatus_def clearMessages_def readMessages_def invokeAgent_def
  saveDesignTokens_def scriptedEnv_def scriptedAgent_def agentOk_def firstTask_def
  startWorld_def exampleTask_def setCurrentTask_def updateTaskStatus_def updateTask_def
  applyUpdates_def Let_def

lemma scripted_implementation:
  "fst (implementationPhases (scriptedEnv build txt ex) firstTask startWorld)
     = Inr (Inr \<lparr> taskId = ''task-001'', designTokens = orderTokens \<rparr>)"
  "mail (snd (implementationPhases (scriptedEnv build txt ex) firstTask startWorld)) ToTeamLead =
     Some \<lparr> messages = [CompletionReport \<lparr> taskId = ''task-001'', summary = ''done'',
        buildResult = \<lparr> buildStatus = build, command = ''npm run build'', errors = 0 \<rparr> \<rparr>] \<rparr>"
  "invocations (snd (implementationPhases (scriptedEnv build txt ex) firstTask startWorld)) =
     [PlannerAgent, DesignerAgent, TechLeadAgent, DeveloperAgent]"
  by (simp_all add: run_defs)

lemma firstTask_id: "task_id firstTask = ''task-001''"
  by (simp add: firstTask_def exampleTask_def)




lemma pair_of: "fst p = a \<Longrightarrow> p = (a, snd p)"
  by (cases p) simp

section \<open>The review of a failed build\<close>

text \<open>
  Claim C1. Take a run of \<open>processTaskV2\<close> that gets through phases 1 to 4, and let the
  completion report for the task in the team lead's mailbox have the build status
  \<open>failed\<close>. Then \<open>runReview\<close> returns not approved with the reason
  \<open>Build verification failed\<close> and leaves every file as it was, so it invokes no agent;
  the run returns that failure for the review phase; the task is active with status
  \<open>rejected\<close> and that reason; and the run has invoked the review agent as many times at
  its end as at its start, that is, never.
\<close>

theorem build_failure_rejects_without_review:
  assumes reach: "implementationPhases env task w = (Inr (Inr designSpec), w1)"
    and box: "mail w1 ToTeamLead = Some file"
    and rep: "firstSome (completionReportFor (task_id task)) (messages file) = Some report"
    and failed: "buildStatus (buildResult report) = BuildFailed"
  shows "runReview env task w1 =
           (Inr \<lparr> approved = False, reason = Some ''Build verification failed'' \<rparr>, w1) \<and>
         fst (processTaskV2 env task w) = Inr (phaseFailed ''Build verification failed'' ReviewPhase) \<and>
         (\<exists>t. activeTask (task_id task) (queue (snd (processTaskV2 env task w))) = Some t \<and>
              status t = Rejected \<and> rejectionReason t = Some ''Build verification failed'') \<and>
         reviewCount (snd (processTaskV2 env task w)) = reviewCount w"
proof -
  define i where "i = task_id task"
  note rv = runReview_build_failed [OF box rep failed, of env]
  from returnsD [OF implementation_hands_over _ reach] obtain old
    where old: "activeTask i (queue w1) = Some old"
    by (auto simp: handedOver_def i_def split: option.splits)
  from rejectTask_result [OF old, of "''Build verification failed''"] obtain t q1
    where rj: "rejectTask i ''Build verification failed'' (queue w1) = Inr (t, q1)"
      and t: "activeTask i q1 = Some t" "status t = Rejected"
        "rejectionReason t = Some ''Build verification failed''" by blast
  define w2 where "w2 = w1\<lparr> queue := q1, persisted := persisted w1 @ [q1] \<rparr>"
  have rp: "reviewPhases env task designSpec w1 =
      (Inr (phaseFailed ''Build verification failed'' ReviewPhase), w2)"
    using rj by (simp add: reviewPhases_def bindA_def rv orDefault_def storeRejectTask_def
        saveQueue_def returnA_def w2_def i_def)
  have body: "catchA (bindA (implementationPhases env task) (\<lambda>r.
             case r of Inl early \<Rightarrow> returnA early | Inr designSpec \<Rightarrow> reviewPhases env task designSpec))
          (\<lambda>e. returnA \<lparr> success_task = False, error_task = Some (ErrorThrown e), phase = None,
                         designVerification = None \<rparr>) w =
      (Inr (phaseFailed ''Build verification failed'' ReviewPhase), w2)"
    by (rule catch_Inr) (simp add: bindA_def reach rp)
  have "reviewCount (snd (implementationPhases env task w)) = reviewCount w"
    by (rule keepsD [OF keeps_reviewCount_implementation]) simp
  then have rc: "reviewCount w1 = reviewCount w" by (simp add: reach)
  have res: "processTaskV2 env task w =
      (Inr (phaseFailed ''Build verification failed'' ReviewPhase),
       w2\<lparr> queue := setCurrentTask None (queue w2),
           persisted := persisted w2 @ [setCurrentTask None (queue w2)], mail := allCleared \<rparr>)"
    unfolding processTaskV2_def using body by (simp add: finallyA_def releaseAndClear_eq)
  show ?thesis
    using t rc by (simp add: rv res w2_def activeTask_setCurrent reviewCount_def i_def [symmetric])
qed

theorem build_failure_rejects_without_review_witness:
  "fst (implementationPhases (scriptedEnv BuildFailed ''APPROVE'' (Inl ExtractionFailed)) firstTask startWorld) =
     Inr (Inr \<lparr> taskId = ''task-001'', designTokens = orderTokens \<rparr>) \<and>
   fst (processTaskV2 (scriptedEnv BuildFailed ''APPROVE'' (Inl ExtractionFailed)) firstTask startWorld) =
     Inr (phaseFailed ''Build verification failed'' ReviewPhase) \<and>
   (\<exists>t. activeTask ''task-001''
           (queue (snd (processTaskV2 (scriptedEnv BuildFailed ''APPROVE'' (Inl ExtractionFailed))
              firstTask startWorld))) = Some t \<and>
        status t = Rejected \<and> rejectionReason t = Some ''Build verification failed'') \<and>
   reviewCount (snd (processTaskV2 (scriptedEnv BuildFailed ''APPROVE'' (Inl ExtractionFailed))
      firstTask startWorld)) = 0"
proof -
  let ?env = "scriptedEnv BuildFailed ''APPROVE'' (Inl ExtractionFailed)"
  let ?report = "\<lparr> taskId = ''task-001'', summary = ''done'',
        buildResult = \<lparr> buildStatus = BuildFailed, command = ''npm run build'', errors = 0 \<rparr> \<rparr>"
  have reach: "implementationPhases ?env firstTask startWorld =
      (Inr (Inr \<lparr> taskId = ''task-001'', designTokens = orderTokens \<rparr>),
       snd (implementationPhases ?env firstTask startWorld))"
    by (rule pair_of) (rule scripted_implementation)
  have rep: "firstSome (completionReportFor (task_id firstTask)) (messages \<lparr> messages = [CompletionReport ?report] \<rparr>) =
      Some ?report"
    by (simp add: firstTask_id)
  have failed: "buildStatus (buildResult ?report) = BuildFailed" by simp
  have none: "reviewCount startWorld = 0" by (simp add: reviewCount_def startWorld_def)
  from build_failure_rejects_without_review [OF reach scripted_implementation(2) rep failed]
  show ?thesis by (simp add: firstTask_id none scripted_implementation(1))
qed

section \<open>Approval and design verification\<close>








section \<open>Cleanup\<close>




section \<open>The current pointer\<close>



















end
